theory Spec2Isabelle
  imports Main "HOL-Library.AList" "HOL-Library.Sublist"
begin

section \<open>Data model\<close>

text \<open>
  The articles service (\<^verbatim>\<open>ArticlesService\<close>) works on parsed feed articles, on a
  partitioned table of hashed field rows and on a registry of activated comparison names.
  Its injected collaborators (hasher, flattener, date library, clock, configuration) are
  gathered in the record \<open>Services\<close>; the two tables are the record \<open>Database\<close>.
\<close>

type_synonym FlattenedArticle = "(string \<times> string) list"

record ArticleRaw =
  date :: "string option"
  pubdate :: "string option"

record Article =
  flattened :: FlattenedArticle
  raw :: ArticleRaw

text \<open>A JavaScript \<^verbatim>\<open>Date\<close>: its epoch milliseconds, or \<open>None\<close> for an invalid date.\<close>

type_synonym JsDate = "int option"

text \<open>The properties of a feedparser \<^verbatim>\<open>Item\<close> that the service reads.\<close>

record Item =
  item_guid :: "string option"
  item_pubdate :: "JsDate option"
  item_date :: "JsDate option"
  item_title :: "string option"
  item_link :: "string option"

text \<open>What \<^verbatim>\<open>articleParserService.flatten\<close> returns for one item.\<close>

record FlattenResult =
  fr_flattened :: FlattenedArticle
  injectArticleContent :: "FlattenedArticle \<Rightarrow> FlattenedArticle"
  hasArticleContentInjection :: bool

record MappedArticle =
  ma_flattened :: FlattenedArticle
  ma_raw :: ArticleRaw
  ma_injectArticleContent :: "FlattenedArticle \<Rightarrow> FlattenedArticle"
  ma_hasArticleContentInjection :: bool

text \<open>
  The collaborators the class receives or imports: \<open>sha1\<close> is
  \<^verbatim>\<open>sha1.copy().update(v).digest("hex")\<close>, \<open>flatten\<close> the article parser service with the
  format options already applied, \<open>dayjs\<close> the date parser (epoch milliseconds of a valid
  date), \<open>toISOString\<close> the rendering of a valid date, \<open>now\<close> the clock reading, and
  \<open>maxInjectionCount\<close> the constant \<^verbatim>\<open>MAX_ARTICLE_INJECTION_ARTICLE_COUNT\<close>.
\<close>

record Services =
  sha1 :: "string \<Rightarrow> string"
  flatten :: "Item \<Rightarrow> FlattenResult"
  dayjs :: "string \<Rightarrow> int option"
  toISOString :: "int \<Rightarrow> string"
  now :: int
  maxInjectionCount :: nat

record PartitionedFeedArticleFieldInsert =
  feedId :: string
  fieldName :: string
  fieldHashedValue :: string
  createdAt :: int

record FeedArticleCustomComparison =
  feed_id :: string
  field_name :: string

record Database =
  fieldRows :: "PartitionedFeedArticleFieldInsert list"
  comparisonRows :: "FeedArticleCustomComparison list"

text \<open>
  An entity manager inside \<^verbatim>\<open>orm.em.transactional\<close>: the database as the transaction sees
  it, and the entities marked by \<^verbatim>\<open>em.persist\<close> that the commit will flush.
\<close>

record EntityManager =
  em_db :: Database
  em_pending :: "FeedArticleCustomComparison list"

datatype error =
    InvalidFeedException string
  | FeedParseTimeoutException
  | UniqueConstraintViolationException string
  | Error string

record DateChecks =
  datePlaceholderReferences :: "string list option"
  oldArticleDateDiffMsThreshold :: "int option"

record StoreOptions =
  comparisonFields :: "string list option"
  skipIdStorage :: "bool option"

record DeliveryOutput =
  articlesToDeliver :: "Article list"
  allArticles :: "Article list"

section \<open>Reading an article\<close>


definition flattened_idHash :: "Article \<Rightarrow> string" where
  "flattened_idHash a = (case map_of (flattened a) ''idHash'' of Some v \<Rightarrow> v | None \<Rightarrow> [])"

text \<open>
  Modelled from the spec: \<^verbatim>\<open>getNestedPrimitiveValue\<close> (utils/get-nested-primitive-value) is
  not among the sources. The spec has \<open>flattened\<close> as a mapping from string key to
  primitive and speaks of the value of a comparison field of an article; the helper is
  the lookup of the key, absent when the article has no such key.
\<close>

definition getNestedPrimitiveValue :: "FlattenedArticle \<Rightarrow> string \<Rightarrow> string option" where
  "getNestedPrimitiveValue fl field = map_of fl field"

text \<open>JavaScript truthiness of an optional string: present and not empty.\<close>

definition truthy :: "string option \<Rightarrow> bool" where
  "truthy v = (case v of None \<Rightarrow> False | Some s \<Rightarrow> s \<noteq> [])"

section \<open>The field store and the comparison registry\<close>

definition rowKey :: "PartitionedFeedArticleFieldInsert \<Rightarrow> string \<times> string \<times> string" where
  "rowKey r = (feedId r, fieldName r, fieldHashedValue r)"

definition comparisonKey :: "FeedArticleCustomComparison \<Rightarrow> string \<times> string" where
  "comparisonKey c = (feed_id c, field_name c)"

text \<open>
  Modelled from the spec: \<^verbatim>\<open>PartitionedFeedArticleFieldStoreService\<close> is not among the
  sources. The spec makes the tuple (feedId, fieldName, fieldHashedValue) unique and lets a
  unique-constraint violation during \<open>persist\<close> surface with a recognizable error kind; the
  PostgreSQL code of that violation is 23505. A batch collides when two of its rows share
  a key or one of its rows has the key of a stored row; otherwise all its rows are added.
\<close>

definition persistCollides ::
  "PartitionedFeedArticleFieldInsert list \<Rightarrow> PartitionedFeedArticleFieldInsert list \<Rightarrow> bool" where
  "persistCollides inserts table =
     (\<not> distinct (map rowKey inserts) \<or> list_ex (\<lambda>r. rowKey r \<in> set (map rowKey table)) inserts)"

definition persist ::
  "PartitionedFeedArticleFieldInsert list \<Rightarrow> EntityManager \<Rightarrow> error + EntityManager" where
  "persist inserts em =
     (if persistCollides inserts (fieldRows (em_db em))
      then Inl (UniqueConstraintViolationException ''23505'')
      else Inr (em\<lparr>em_db := (em_db em)\<lparr>fieldRows := fieldRows (em_db em) @ inserts\<rparr>\<rparr>))"

text \<open>
  Modelled from the spec: \<open>findIdFieldsForFeed(feedId, candidateHashes)\<close> returns the rows
  of the feed's id field whose hashed value is among the candidates.
\<close>

definition findIdFieldsForFeed ::
  "Database \<Rightarrow> string \<Rightarrow> string list \<Rightarrow> PartitionedFeedArticleFieldInsert list" where
  "findIdFieldsForFeed db fid candidates =
     filter (\<lambda>r. feedId r = fid \<and> fieldName r = ''id'' \<and> fieldHashedValue r \<in> set candidates)
       (fieldRows db)"

text \<open>
  Modelled from the spec: \<open>someFieldsExist(feedId, queries)\<close> is true iff any of the
  (feedId, name, value) triples is stored.
\<close>

definition someFieldsExist :: "Database \<Rightarrow> string \<Rightarrow> (string \<times> string) list \<Rightarrow> bool" where
  "someFieldsExist db fid queries =
     list_ex (\<lambda>(name, hashed). (fid, name, hashed) \<in> set (map rowKey (fieldRows db))) queries"

text \<open>
  Modelled from the spec: \<open>hasArticlesStoredForFeed(feedId)\<close> tells whether the feed has
  prior stored articles, that is, some stored id row.
\<close>

definition hasArticlesStoredForFeed :: "Database \<Rightarrow> string \<Rightarrow> bool" where
  "hasArticlesStoredForFeed db fid =
     list_ex (\<lambda>r. feedId r = fid \<and> fieldName r = ''id'') (fieldRows db)"

text \<open>
  \<^verbatim>\<open>articleCustomComparisonRepo.find({feed_id, field_name: {$in: names}})\<close>: the registry
  rows of the feed whose name is among the given names.
\<close>

definition comparisonRepoFind ::
  "Database \<Rightarrow> string \<Rightarrow> string list \<Rightarrow> FeedArticleCustomComparison list" where
  "comparisonRepoFind db fid fieldKeys =
     filter (\<lambda>c. feed_id c = fid \<and> field_name c \<in> set fieldKeys) (comparisonRows db)"

text \<open>
  The flush at commit inserts the marked registry entities; the registry table is unique
  in (feedId, fieldName), so a repeated name is the same unique-constraint violation.
\<close>

definition flushCollides ::
  "FeedArticleCustomComparison list \<Rightarrow> FeedArticleCustomComparison list \<Rightarrow> bool" where
  "flushCollides pending table =
     (\<not> distinct (map comparisonKey pending) \<or>
      list_ex (\<lambda>c. comparisonKey c \<in> set (map comparisonKey table)) pending)"

definition flush :: "EntityManager \<Rightarrow> error + Database" where
  "flush em =
     (if flushCollides (em_pending em) (comparisonRows (em_db em))
      then Inl (UniqueConstraintViolationException ''23505'')
      else Inr ((em_db em)\<lparr>comparisonRows := comparisonRows (em_db em) @ em_pending em\<rparr>))"

text \<open>
  \<^verbatim>\<open>orm.em.transactional(cb)\<close>: the callback works on a fork of the database; when it and
  the flush succeed the fork is committed, when either throws the database is left as it
  was and the error is rethrown. The result is the database afterwards and the error.
\<close>

definition transactional ::
  "(EntityManager \<Rightarrow> error + EntityManager) \<Rightarrow> Database \<Rightarrow> Database \<times> error option" where
  "transactional cb db =
     (case cb \<lparr>em_db = db, em_pending = []\<rparr> of
        Inl err \<Rightarrow> (db, Some err)
      | Inr em \<Rightarrow>
          (case flush em of
             Inl err \<Rightarrow> (db, Some err)
           | Inr db' \<Rightarrow> (db', None)))"

section \<open>Storing articles\<close>

definition comparisonFieldRows ::
  "Services \<Rightarrow> string \<Rightarrow> Article list \<Rightarrow> string list \<Rightarrow> PartitionedFeedArticleFieldInsert list" where
  "comparisonFieldRows env fid articles fieldKeys =
     concat (map (\<lambda>article.
       concat (map (\<lambda>field.
         (let fieldValue = getNestedPrimitiveValue (flattened article) field
          in if truthy fieldValue
             then [\<lparr>feedId = fid, fieldName = field,
                    fieldHashedValue = sha1 env (the fieldValue), createdAt = now env\<rparr>]
             else [])) fieldKeys)) articles)"

definition comparisonNamesToStore ::
  "Database \<Rightarrow> string \<Rightarrow> string list \<Rightarrow> FeedArticleCustomComparison list" where
  "comparisonNamesToStore db fid fieldKeys =
     (let foundComparisonNames = comparisonRepoFind db fid fieldKeys
      in map (\<lambda>name. \<lparr>feed_id = fid, field_name = name\<rparr>)
           (filter (\<lambda>name. List.find (\<lambda>n. field_name n = name) foundComparisonNames = None)
              fieldKeys))"

definition storeArticleComparisons ::
  "Services \<Rightarrow> EntityManager \<Rightarrow> string \<Rightarrow> Article list \<Rightarrow> string list \<Rightarrow> error + EntityManager" where
  "storeArticleComparisons env em fid articles fieldKeys =
     (if length fieldKeys = 0 then Inr em
      else
        (let em' = em\<lparr>em_pending := em_pending em @ comparisonNamesToStore (em_db em) fid fieldKeys\<rparr>;
             fieldsToSave = comparisonFieldRows env fid articles fieldKeys
         in persist fieldsToSave em'))"

definition idFieldRows ::
  "Services \<Rightarrow> string \<Rightarrow> Article list \<Rightarrow> PartitionedFeedArticleFieldInsert list" where
  "idFieldRows env fid articles =
     map (\<lambda>article. \<lparr>feedId = fid, fieldName = ''id'',
                      fieldHashedValue = flattened_idHash article, createdAt = now env\<rparr>) articles"

text \<open>\<^verbatim>\<open>options?.comparisonFields || []\<close>.\<close>

definition comparisonFieldsOrEmpty :: "StoreOptions option \<Rightarrow> string list" where
  "comparisonFieldsOrEmpty options =
     (case options of
        None \<Rightarrow> []
      | Some opts \<Rightarrow> (case comparisonFields opts of None \<Rightarrow> [] | Some fs \<Rightarrow> fs))"

text \<open>
  \<^verbatim>\<open>storeArticles(feedId, articles, options)\<close>. The id rows are built for every article
  whatever \<open>options.skipIdStorage\<close> says: the source never reads that option. A
  unique-constraint violation with code 23505 is swallowed, any other error is rethrown.
\<close>

definition storeArticles ::
  "Services \<Rightarrow> Database \<Rightarrow> string \<Rightarrow> Article list \<Rightarrow> StoreOptions option \<Rightarrow> Database \<times> error option" where
  "storeArticles env db fid articles options =
     (let fieldsToSave = idFieldRows env fid articles;
          fieldKeys = comparisonFieldsOrEmpty options
      in case transactional
                (\<lambda>em. case persist fieldsToSave em of
                         Inl err \<Rightarrow> Inl err
                       | Inr em1 \<Rightarrow> storeArticleComparisons env em1 fid articles fieldKeys) db of
           (db', None) \<Rightarrow> (db', None)
         | (db', Some err) \<Rightarrow>
             (case err of
                UniqueConstraintViolationException code \<Rightarrow>
                  if code = ''23505'' then (db', None) else (db', Some err)
              | _ \<Rightarrow> (db', Some err)))"

section \<open>Deciding what is new\<close>

text \<open>
  \<^verbatim>\<open>filterForNewArticles\<close>: a JavaScript \<^verbatim>\<open>Map\<close> from id hash to article keeps the position
  of the first entry of a key and the value of its last entry (\<open>AList.update\<close>); the new
  articles are the map's values whose key has no stored id row.
\<close>

definition filterForNewArticles :: "Database \<Rightarrow> string \<Rightarrow> Article list \<Rightarrow> Article list" where
  "filterForNewArticles db fid articles =
     (let mapOfArticles =
            foldl (\<lambda>m article. AList.update (flattened_idHash article) article m) [] articles;
          articleIds = map fst mapOfArticles;
          foundIds = set (map fieldHashedValue (findIdFieldsForFeed db fid articleIds))
      in List.map_filter (\<lambda>i. map_of mapOfArticles i)
           (filter (\<lambda>i. i \<notin> foundIds) articleIds))"

text \<open>\<^verbatim>\<open>areComparisonsStored\<close>: each requested name paired with \<open>isStored\<close>.\<close>

definition areComparisonsStored :: "Database \<Rightarrow> string \<Rightarrow> string list \<Rightarrow> (string \<times> bool) list" where
  "areComparisonsStored db fid fieldKeys =
     (let rows = comparisonRepoFind db fid fieldKeys;
          storedFields = set (map field_name rows)
      in map (\<lambda>field. (field, field \<in> storedFields)) fieldKeys)"

definition articleFieldsSeenBefore ::
  "Services \<Rightarrow> Database \<Rightarrow> string \<Rightarrow> Article \<Rightarrow> string list \<Rightarrow> bool" where
  "articleFieldsSeenBefore env db fid article fieldKeys =
     (let queries =
            concat (map (\<lambda>key.
              (let v = getNestedPrimitiveValue (flattened article) key
               in if truthy v then [(key, sha1 env (the v))] else [])) fieldKeys)
      in if length queries = 0 then False else someFieldsExist db fid queries)"

definition checkBlockingComparisons ::
  "Services \<Rightarrow> Database \<Rightarrow> string \<Rightarrow> string list \<Rightarrow> Article list \<Rightarrow> string list \<Rightarrow> Article list" where
  "checkBlockingComparisons env db fid blockingComparisons newArticles currentlyStoredComparisons =
     (let currentlyStoredBlockingComparisons =
            filter (\<lambda>r. r \<in> set currentlyStoredComparisons) blockingComparisons
      in if length newArticles = 0 \<or> length currentlyStoredBlockingComparisons = 0
         then newArticles
         else if length blockingComparisons = 0 then newArticles
         else List.map_filter (\<lambda>article.
                (let shouldBlock =
                       articleFieldsSeenBefore env db fid article currentlyStoredBlockingComparisons
                 in if shouldBlock then None else Some article)) newArticles)"

definition checkPassingComparisons ::
  "Services \<Rightarrow> Database \<Rightarrow> string \<Rightarrow> string list \<Rightarrow> Article list \<Rightarrow> string list \<Rightarrow> Article list" where
  "checkPassingComparisons env db fid passingComparisons seenArticles currentlyStoredComparisons =
     (if length seenArticles = 0 then seenArticles
      else
        (let currentlyStoredPassingComparisons =
               filter (\<lambda>r. r \<in> set currentlyStoredComparisons) passingComparisons
         in if length passingComparisons = 0 \<or> length currentlyStoredPassingComparisons = 0
            then []
            else
              (let storedComparisonResults = areComparisonsStored db fid passingComparisons;
                   relevantComparisons = map fst (filter snd storedComparisonResults)
               in if length relevantComparisons = 0 then []
                  else List.map_filter (\<lambda>article.
                         (let shouldPass =
                                articleFieldsSeenBefore env db fid article relevantComparisons
                          in if shouldPass then None else Some article)) seenArticles)))"

section \<open>The date check\<close>

text \<open>\<^verbatim>\<open>a.raw[placeholder]\<close>: the raw face has the keys \<open>date\<close> and \<open>pubdate\<close> only.\<close>

definition rawValue :: "ArticleRaw \<Rightarrow> string \<Rightarrow> string option" where
  "rawValue r placeholder =
     (if placeholder = ''date'' then date r
      else if placeholder = ''pubdate'' then pubdate r
      else None)"

text \<open>
  The date the filter judges an article by: the placeholders are parsed in order (a
  missing or empty raw value as \<^verbatim>\<open>"invalid date"\<close>), the invalid results are dropped, and
  the first that is left is taken.
\<close>

definition articleDateValue :: "Services \<Rightarrow> DateChecks \<Rightarrow> Article \<Rightarrow> int option" where
  "articleDateValue env dateChecks a =
     (let defaultPlaceholders = [''date'', ''pubdate''];
          placeholdersToUse =
            (case datePlaceholderReferences dateChecks of
               Some refs \<Rightarrow> refs
             | None \<Rightarrow> defaultPlaceholders);
          parsed = map (\<lambda>placeholder.
                     dayjs env (if truthy (rawValue (raw a) placeholder)
                                then the (rawValue (raw a) placeholder)
                                else ''invalid date'')) placeholdersToUse
      in case filter (\<lambda>d. d \<noteq> None) parsed of
           [] \<Rightarrow> None
         | d # _ \<Rightarrow> d)"

definition filterArticlesBasedOnDateChecks ::
  "Services \<Rightarrow> Article list \<Rightarrow> DateChecks option \<Rightarrow> Article list" where
  "filterArticlesBasedOnDateChecks env articles dateChecks =
     (case dateChecks of
        None \<Rightarrow> articles
      | Some checks \<Rightarrow>
          (case oldArticleDateDiffMsThreshold checks of
             None \<Rightarrow> articles
           | Some threshold \<Rightarrow>
               if threshold = 0 then articles
               else filter (\<lambda>a.
                      (case articleDateValue env checks a of
                         None \<Rightarrow> False
                       | Some dateValue \<Rightarrow>
                           (let diffMs = now env - dateValue in diffMs \<le> threshold)))
                      articles))"

section \<open>Parsing the feed\<close>

text \<open>
  Modelled from the spec: \<^verbatim>\<open>ArticleIDResolver\<close> (utils) is not among the sources. The
  spec's candidates are guid, pubdate, title and link in this priority order; the resolver
  keeps the candidates that are present and non-empty on every item seen so far, returns
  the highest-priority survivor (none when no candidate survives), and the id value of an
  item is its chosen field stringified (a date in its wire form).
\<close>

type_synonym ArticleIDResolver = "string list"

definition newArticleIDResolver :: ArticleIDResolver where
  "newArticleIDResolver = [''guid'', ''pubdate'', ''title'', ''link'']"

definition stringifyDate :: "Services \<Rightarrow> JsDate \<Rightarrow> string" where
  "stringifyDate env d = (case d of Some t \<Rightarrow> toISOString env t | None \<Rightarrow> ''Invalid Date'')"

definition itemFieldString :: "Services \<Rightarrow> Item \<Rightarrow> string \<Rightarrow> string option" where
  "itemFieldString env item key =
     (if key = ''guid'' then item_guid item
      else if key = ''pubdate'' then map_option (stringifyDate env) (item_pubdate item)
      else if key = ''title'' then item_title item
      else if key = ''link'' then item_link item
      else None)"

definition recordArticle :: "Services \<Rightarrow> ArticleIDResolver \<Rightarrow> Item \<Rightarrow> ArticleIDResolver" where
  "recordArticle env resolver item =
     filter (\<lambda>key. truthy (itemFieldString env item key)) resolver"

definition getIDType :: "ArticleIDResolver \<Rightarrow> string option" where
  "getIDType resolver = (case resolver of [] \<Rightarrow> None | key # _ \<Rightarrow> Some key)"

definition getIDTypeValue :: "Services \<Rightarrow> Item \<Rightarrow> string \<Rightarrow> string" where
  "getIDTypeValue env item idType =
     (case itemFieldString env item idType of Some v \<Rightarrow> v | None \<Rightarrow> [])"

text \<open>
  What the streaming parser does with the XML, in the order it happens: an \<open>error\<close>
  event with its message, a \<open>readable\<close> event with the items read in it, the \<open>end\<close>
  event, or the expiry of the parse timer.
\<close>

datatype ParserEvent =
    ParserError string
  | Readable "Item list"
  | ParserEnd
  | TimeoutFired

text \<open>A raw date is kept, as an ISO-8601 string, only when the item has it and it is valid.\<close>

definition normalizeDate :: "Services \<Rightarrow> JsDate option \<Rightarrow> string option" where
  "normalizeDate env d =
     (case d of
        Some (Some t) \<Rightarrow> Some (toISOString env t)
      | _ \<Rightarrow> None)"

definition mapArticle :: "Services \<Rightarrow> string \<Rightarrow> Item \<Rightarrow> MappedArticle" where
  "mapArticle env idType rawArticle =
     (let i = getIDTypeValue env rawArticle idType;
          res = flatten env rawArticle
      in \<lparr>ma_flattened =
            AList.update ''idHash'' (sha1 env i) (AList.update ''id'' i (fr_flattened res)),
          ma_raw = \<lparr>date = normalizeDate env (item_date rawArticle),
                    pubdate = normalizeDate env (item_pubdate rawArticle)\<rparr>,
          ma_injectArticleContent = injectArticleContent res,
          ma_hasArticleContentInjection = hasArticleContentInjection res\<rparr>)"

text \<open>
  The scan for duplicate id hashes: it fails at the first article without an id hash, and
  for a repeated id hash it only logs; the result is the list of id hashes warned about.
\<close>

fun checkIdHashes :: "string list \<Rightarrow> MappedArticle list \<Rightarrow> error + string list" where
  "checkIdHashes idHashes [] = Inr []"
| "checkIdHashes idHashes (article # rest) =
     (let idHash = map_of (ma_flattened article) ''idHash''
      in if \<not> truthy idHash then Inl (Error ''Some articles are missing id hash'')
         else
           (case checkIdHashes (the idHash # idHashes) rest of
              Inl err \<Rightarrow> Inl err
            | Inr warnings \<Rightarrow>
                Inr ((if the idHash \<in> set idHashes then [the idHash] else []) @ warnings)))"

text \<open>The handler of the \<open>end\<close> event.\<close>

definition onEnd :: "Services \<Rightarrow> ArticleIDResolver \<Rightarrow> Item list \<Rightarrow> error + Article list" where
  "onEnd env idResolver rawArticles =
     (if length rawArticles = 0 then Inr []
      else
        (case getIDType idResolver of
           None \<Rightarrow> Inl (Error ''No ID type found when parsing articles for feed'')
         | Some idType \<Rightarrow>
             (let mappedArticles = map (mapArticle env idType) rawArticles
              in case checkIdHashes [] mappedArticles of
                   Inl err \<Rightarrow> Inl err
                 | Inr warnings \<Rightarrow>
                     (let injected =
                            (if length mappedArticles \<le> maxInjectionCount env \<and>
                                list_ex ma_hasArticleContentInjection mappedArticles
                             then map (\<lambda>a. a\<lparr>ma_flattened :=
                                              ma_injectArticleContent a (ma_flattened a)\<rparr>)
                                    mappedArticles
                             else mappedArticles)
                      in Inr (map (\<lambda>a. \<lparr>flattened = ma_flattened a, raw = ma_raw a\<rparr>)
                                injected)))))"

text \<open>
  The promise settles at the first event that resolves or rejects it; \<open>None\<close> is a
  promise that never settles (the events stop before any of them does).
\<close>

fun parseEvents ::
  "Services \<Rightarrow> ArticleIDResolver \<Rightarrow> Item list \<Rightarrow> ParserEvent list \<Rightarrow> (error + Article list) option" where
  "parseEvents env idResolver rawArticles [] = None"
| "parseEvents env idResolver rawArticles (TimeoutFired # events) =
     Some (Inl FeedParseTimeoutException)"
| "parseEvents env idResolver rawArticles (ParserError message # events) =
     (if message = ''Not a feed'' \<or> prefix ''Unexpected end'' message
      then Some (Inl (InvalidFeedException ''Invalid feed''))
      else Some (Inl (Error message)))"
| "parseEvents env idResolver rawArticles (Readable items # events) =
     parseEvents env (foldl (recordArticle env) idResolver items) (rawArticles @ items) events"
| "parseEvents env idResolver rawArticles (ParserEnd # events) =
     Some (onEnd env idResolver rawArticles)"

text \<open>
  \<^verbatim>\<open>getArticlesFromXml(xml, options)\<close>, the XML standing as the events the parser emits
  for it.
\<close>

definition getArticlesFromXml :: "Services \<Rightarrow> ParserEvent list \<Rightarrow> (error + Article list) option" where
  "getArticlesFromXml env xml = parseEvents env newArticleIDResolver [] xml"

section \<open>The delivery pass\<close>

text \<open>
  \<^verbatim>\<open>getArticlesToDeliverFromXml(feedXml, {id, blockingComparisons, passingComparisons,
  dateChecks, ...})\<close>. The result is the database after the pass with either the error the
  pass throws or its output; \<open>None\<close> when the parse never settles.
\<close>

definition getArticlesToDeliverFromXml ::
  "Services \<Rightarrow> Database \<Rightarrow> ParserEvent list \<Rightarrow> string \<Rightarrow> string list \<Rightarrow> string list \<Rightarrow>
   DateChecks option \<Rightarrow> (Database \<times> (error + DeliveryOutput)) option" where
  "getArticlesToDeliverFromXml env db feedXml fid blockingComparisons passingComparisons dateChecks =
     (case getArticlesFromXml env feedXml of
        None \<Rightarrow> None
      | Some (Inl err) \<Rightarrow> Some (db, Inl err)
      | Some (Inr articles) \<Rightarrow>
          if length articles = 0
          then Some (db, Inr \<lparr>articlesToDeliver = [], allArticles = articles\<rparr>)
          else
            (let priorArticlesStored = hasArticlesStoredForFeed db fid
             in if \<not> priorArticlesStored
                then
                  (case storeArticles env db fid articles
                          (Some \<lparr>comparisonFields = Some (blockingComparisons @ passingComparisons),
                                 skipIdStorage = None\<rparr>) of
                     (db1, Some err) \<Rightarrow> Some (db1, Inl err)
                   | (db1, None) \<Rightarrow>
                       Some (db1, Inr \<lparr>articlesToDeliver = [], allArticles = articles\<rparr>))
                else
                  (let newArticles = filterForNewArticles db fid articles;
                       seenArticles =
                         filter (\<lambda>article.
                           List.find (\<lambda>a. flattened_idHash a = flattened_idHash article)
                             newArticles = None) articles;
                       allComparisons = blockingComparisons @ passingComparisons;
                       comparisonStorageResults = areComparisonsStored db fid allComparisons;
                       storedComparisons = map fst (filter snd comparisonStorageResults);
                       articlesPastBlocks =
                         checkBlockingComparisons env db fid blockingComparisons newArticles
                           storedComparisons;
                       articlesPassedComparisons =
                         checkPassingComparisons env db fid passingComparisons seenArticles
                           storedComparisons
                   in case (if length newArticles > 0
                            then storeArticles env db fid newArticles
                                   (Some \<lparr>comparisonFields = Some storedComparisons,
                                          skipIdStorage = None\<rparr>)
                            else (db, None)) of
                        (db1, Some err) \<Rightarrow> Some (db1, Inl err)
                      | (db1, None) \<Rightarrow>
                     (case (if length articlesPassedComparisons \<noteq> 0
                            then storeArticles env db1 fid articlesPassedComparisons
                                   (Some \<lparr>comparisonFields = Some storedComparisons,
                                          skipIdStorage = Some True\<rparr>)
                            else (db1, None)) of
                        (db2, Some err) \<Rightarrow> Some (db2, Inl err)
                      | (db2, None) \<Rightarrow>
                     (let unstoredComparisons =
                            map fst (filter (\<lambda>r. \<not> snd r) comparisonStorageResults)
                      in case (if length unstoredComparisons > 0
                               then storeArticles env db2 fid articles
                                      (Some \<lparr>comparisonFields = Some unstoredComparisons,
                                             skipIdStorage = Some True\<rparr>)
                               else (db2, None)) of
                           (db3, Some err) \<Rightarrow> Some (db3, Inl err)
                         | (db3, None) \<Rightarrow>
                             (let articlesPreCheck =
                                    rev (articlesPastBlocks @ articlesPassedComparisons);
                                  articlesPostDateCheck =
                                    filterArticlesBasedOnDateChecks env articlesPreCheck dateChecks
                              in Some (db3, Inr \<lparr>articlesToDeliver = articlesPostDateCheck,
                                                  allArticles = articles\<rparr>)))))))"

section \<open>Notions used to state the properties\<close>

text \<open>
  The database a \<^verbatim>\<open>storeArticles\<close> call leaves when its transaction commits: every id row,
  every comparison field row and every new registry row it prepared has been added.
\<close>

definition committedDatabase ::
  "Services \<Rightarrow> Database \<Rightarrow> string \<Rightarrow> Article list \<Rightarrow> string list \<Rightarrow> Database" where
  "committedDatabase env db fid articles fieldKeys =
     \<lparr>fieldRows = fieldRows db @ idFieldRows env fid articles @
                    comparisonFieldRows env fid articles fieldKeys,
      comparisonRows = comparisonRows db @ comparisonNamesToStore db fid fieldKeys\<rparr>"

text \<open>
  A \<^verbatim>\<open>storeArticles\<close> call meets a unique-constraint violation: at the insert of the id
  rows, at the insert of the comparison field rows, or at the flush of the registry rows.
\<close>

definition storeCollides ::
  "Services \<Rightarrow> Database \<Rightarrow> string \<Rightarrow> Article list \<Rightarrow> string list \<Rightarrow> bool" where
  "storeCollides env db fid articles fieldKeys =
     (persistCollides (idFieldRows env fid articles) (fieldRows db) \<or>
      persistCollides (comparisonFieldRows env fid articles fieldKeys)
        (fieldRows db @ idFieldRows env fid articles) \<or>
      flushCollides (comparisonNamesToStore db fid fieldKeys) (comparisonRows db))"

text \<open>
  The values a later (non-seed) pass computes before it stores anything, as functions of
  the database it starts from and of the parsed articles.
\<close>

definition seenArticlesOf :: "Database \<Rightarrow> string \<Rightarrow> Article list \<Rightarrow> Article list" where
  "seenArticlesOf db fid articles =
     filter (\<lambda>article.
       List.find (\<lambda>a. flattened_idHash a = flattened_idHash article)
         (filterForNewArticles db fid articles) = None) articles"

definition storedComparisonsOf :: "Database \<Rightarrow> string \<Rightarrow> string list \<Rightarrow> string list" where
  "storedComparisonsOf db fid allComparisons =
     map fst (filter snd (areComparisonsStored db fid allComparisons))"

definition unstoredComparisonsOf :: "Database \<Rightarrow> string \<Rightarrow> string list \<Rightarrow> string list" where
  "unstoredComparisonsOf db fid allComparisons =
     map fst (filter (\<lambda>r. \<not> snd r) (areComparisonsStored db fid allComparisons))"

definition articlesPastBlocksOf ::
  "Services \<Rightarrow> Database \<Rightarrow> string \<Rightarrow> Article list \<Rightarrow> string list \<Rightarrow> string list \<Rightarrow> Article list" where
  "articlesPastBlocksOf env db fid articles blockingComparisons passingComparisons =
     checkBlockingComparisons env db fid blockingComparisons (filterForNewArticles db fid articles)
       (storedComparisonsOf db fid (blockingComparisons @ passingComparisons))"

definition articlesPassedComparisonsOf ::
  "Services \<Rightarrow> Database \<Rightarrow> string \<Rightarrow> Article list \<Rightarrow> string list \<Rightarrow> string list \<Rightarrow> Article list" where
  "articlesPassedComparisonsOf env db fid articles blockingComparisons passingComparisons =
     checkPassingComparisons env db fid passingComparisons (seenArticlesOf db fid articles)
       (storedComparisonsOf db fid (blockingComparisons @ passingComparisons))"

text \<open>
  One sub-step of the persistence of a later pass: nothing when there is nothing to store,
  the database unchanged when the transaction is rolled back, all prepared rows otherwise.
\<close>

definition storeStep ::
  "Services \<Rightarrow> Database \<Rightarrow> string \<Rightarrow> Article list \<Rightarrow> string list \<Rightarrow> Database" where
  "storeStep env db fid articles fieldKeys =
     (if articles = [] then db
      else if storeCollides env db fid articles fieldKeys then db
      else committedDatabase env db fid articles fieldKeys)"

definition databaseAfterPass ::
  "Services \<Rightarrow> Database \<Rightarrow> string \<Rightarrow> Article list \<Rightarrow> string list \<Rightarrow> string list \<Rightarrow> Database" where
  "databaseAfterPass env db fid articles blockingComparisons passingComparisons =
     (let allComparisons = blockingComparisons @ passingComparisons;
          db1 = storeStep env db fid (filterForNewArticles db fid articles)
                  (storedComparisonsOf db fid allComparisons);
          db2 = storeStep env db1 fid
                  (articlesPassedComparisonsOf env db fid articles blockingComparisons
                     passingComparisons)
                  (storedComparisonsOf db fid allComparisons)
      in if unstoredComparisonsOf db fid allComparisons = [] then db2
         else storeStep env db2 fid articles (unstoredComparisonsOf db fid allComparisons))"

text \<open>
  A field of an article has been seen before: the article has a non-empty value for it and
  the hash of that value is stored for the feed under the field's name.
\<close>

definition fieldValueSeenBefore ::
  "Services \<Rightarrow> Database \<Rightarrow> string \<Rightarrow> Article \<Rightarrow> string \<Rightarrow> bool" where
  "fieldValueSeenBefore env db fid article field =
     (case getNestedPrimitiveValue (flattened article) field of
        None \<Rightarrow> False
      | Some v \<Rightarrow> v \<noteq> [] \<and> (fid, field, sha1 env v) \<in> rowKey ` set (fieldRows db))"

text \<open>The id hash has a stored id row of the feed.\<close>

definition idHashStored :: "Database \<Rightarrow> string \<Rightarrow> string \<Rightarrow> bool" where
  "idHashStored db fid h = ((fid, ''id'', h) \<in> rowKey ` set (fieldRows db))"

text \<open>The \<^verbatim>\<open>Map\<close> that \<^verbatim>\<open>filterForNewArticles\<close> builds from the articles.\<close>

definition mapOfArticles :: "Article list \<Rightarrow> (string \<times> Article) list" where
  "mapOfArticles articles =
     foldl (\<lambda>m article. AList.update (flattened_idHash article) article m) [] articles"

text \<open>
  The date check in the spec's words: the placeholders to use, the date a placeholder
  yields for an article, and the first of them that is a valid date.
\<close>

definition placeholdersToUse :: "DateChecks \<Rightarrow> string list" where
  "placeholdersToUse checks =
     (case datePlaceholderReferences checks of Some refs \<Rightarrow> refs | None \<Rightarrow> [''date'', ''pubdate''])"

definition placeholderDate :: "Services \<Rightarrow> Article \<Rightarrow> string \<Rightarrow> int option" where
  "placeholderDate env a placeholder =
     (case rawValue (raw a) placeholder of
        None \<Rightarrow> dayjs env ''invalid date''
      | Some v \<Rightarrow> if v = [] then dayjs env ''invalid date'' else dayjs env v)"

fun firstValidDate :: "Services \<Rightarrow> Article \<Rightarrow> string list \<Rightarrow> int option" where
  "firstValidDate env a [] = None"
| "firstValidDate env a (placeholder # rest) =
     (case placeholderDate env a placeholder of
        Some d \<Rightarrow> Some d
      | None \<Rightarrow> firstValidDate env a rest)"



text \<open>
  The state a pass can leave behind: every parsed article has its id row stored; and no
  parsed article would pass the passing check, because no passing comparison is activated
  or because every article has a value seen before in some activated passing comparison.
\<close>

definition allIdHashesStored :: "Database \<Rightarrow> string \<Rightarrow> Article list \<Rightarrow> bool" where
  "allIdHashesStored db fid articles =
     list_all (\<lambda>a. idHashStored db fid (flattened_idHash a)) articles"

definition noArticlePasses ::
  "Services \<Rightarrow> Database \<Rightarrow> string \<Rightarrow> Article list \<Rightarrow> string list \<Rightarrow> bool" where
  "noArticlePasses env db fid articles passingComparisons =
     (storedComparisonsOf db fid passingComparisons = [] \<or>
      list_all (\<lambda>a. list_ex (fieldValueSeenBefore env db fid a)
                       (storedComparisonsOf db fid passingComparisons)) articles)"

text \<open>
  Running the pass a second time on the same XML, from the database the first pass left:
  the outcome of the second run (\<open>None\<close> unless the first run completed).
\<close>

definition immediateRerun ::
  "Services \<Rightarrow> Database \<Rightarrow> ParserEvent list \<Rightarrow> string \<Rightarrow> string list \<Rightarrow> string list \<Rightarrow>
   DateChecks option \<Rightarrow> (error + DeliveryOutput) option" where
  "immediateRerun env db xml fid blockingComparisons passingComparisons dateChecks =
     (case getArticlesToDeliverFromXml env db xml fid blockingComparisons passingComparisons
             dateChecks of
        Some (db1, Inr out1) \<Rightarrow>
          map_option snd
            (getArticlesToDeliverFromXml env db1 xml fid blockingComparisons passingComparisons
               dateChecks)
      | _ \<Rightarrow> None)"

section \<open>A small feed\<close>

text \<open>
  Concrete collaborators and data on which the properties are exercised: the hasher tags
  its input, the flattener keeps an item's title and link, and one date string parses.
\<close>

definition testServices :: Services where
  "testServices =
     \<lparr>sha1 = (\<lambda>v. ''sha1:'' @ v),
      flatten = (\<lambda>item.
        \<lparr>fr_flattened =
           (case item_title item of Some t \<Rightarrow> [(''title'', t)] | None \<Rightarrow> []) @
           (case item_link item of Some l \<Rightarrow> [(''link'', l)] | None \<Rightarrow> []),
         injectArticleContent = (\<lambda>fl. fl @ [(''external'', ''content'')]),
         hasArticleContentInjection = False\<rparr>),
      dayjs = (\<lambda>v. if v = ''1970-01-01T00:00:01.000Z'' then Some 1000 else None),
      toISOString = (\<lambda>t. ''1970-01-01T00:00:01.000Z''),
      now = 5000,
      maxInjectionCount = 50\<rparr>"

definition testItem :: "string \<Rightarrow> string option \<Rightarrow> Item" where
  "testItem guid title =
     \<lparr>item_guid = Some guid, item_pubdate = None, item_date = None,
      item_title = title, item_link = None\<rparr>"

definition testArticle :: "string \<Rightarrow> string option \<Rightarrow> Article" where
  "testArticle guid title =
     \<lparr>flattened =
        (case title of Some t \<Rightarrow> [(''title'', t)] | None \<Rightarrow> []) @
        [(''id'', guid), (''idHash'', ''sha1:'' @ guid)],
      raw = \<lparr>date = None, pubdate = None\<rparr>\<rparr>"

definition testRow :: "string \<Rightarrow> string \<Rightarrow> PartitionedFeedArticleFieldInsert" where
  "testRow name hashed =
     \<lparr>feedId = ''feed'', fieldName = name, fieldHashedValue = hashed, createdAt = 5000\<rparr>"

definition emptyDatabase :: Database where
  "emptyDatabase = \<lparr>fieldRows = [], comparisonRows = []\<rparr>"

definition seenDatabase :: Database where
  "seenDatabase = \<lparr>fieldRows = [testRow ''id'' ''sha1:a''], comparisonRows = []\<rparr>"

definition testFeed :: "(string \<times> string option) list \<Rightarrow> ParserEvent list" where
  "testFeed entries = [Readable (map (\<lambda>(guid, title). testItem guid title) entries), ParserEnd]"

definition testComparison :: "string \<Rightarrow> FeedArticleCustomComparison" where
  "testComparison name = \<lparr>feed_id = ''feed'', field_name = name\<rparr>"

definition blockDatabase :: Database where
  "blockDatabase =
     \<lparr>fieldRows = [testRow ''id'' ''sha1:a'', testRow ''title'' ''sha1:Hello''],
      comparisonRows = [testComparison ''title'']\<rparr>"

definition passDatabase :: Database where
  "passDatabase =
     \<lparr>fieldRows = [testRow ''id'' ''sha1:a'', testRow ''title'' ''sha1:Old''],
      comparisonRows = [testComparison ''title'']\<rparr>"

definition datedArticle :: "string \<Rightarrow> Article" where
  "datedArticle guid =
     \<lparr>flattened = [(''id'', guid), (''idHash'', ''sha1:'' @ guid)],
      raw = \<lparr>date = Some ''1970-01-01T00:00:01.000Z'', pubdate = None\<rparr>\<rparr>"




section \<open>Storing is all or nothing\<close>

lemma comparisonFieldRows_Nil [simp]: "comparisonFieldRows env fid articles [] = []"
  by (induction articles) (simp_all add: comparisonFieldRows_def)

lemma comparisonNamesToStore_Nil [simp]: "comparisonNamesToStore db fid [] = []"
  by (simp add: comparisonNamesToStore_def)

lemma persistCollides_Nil [simp]: "\<not> persistCollides [] table"
  by (simp add: persistCollides_def)

lemma flushCollides_Nil [simp]: "\<not> flushCollides [] table"
  by (simp add: flushCollides_def)

lemma comparisonNamesToStore_fieldRows [simp]:
  "comparisonNamesToStore (db\<lparr>fieldRows := rows\<rparr>) fid fieldKeys =
   comparisonNamesToStore db fid fieldKeys"
  by (simp add: comparisonNamesToStore_def comparisonRepoFind_def)

lemma storeArticles_eq:
  "storeArticles env db fid articles options =
     (if storeCollides env db fid articles (comparisonFieldsOrEmpty options) then (db, None)
      else (committedDatabase env db fid articles (comparisonFieldsOrEmpty options), None))"
  by (auto simp: storeArticles_def transactional_def persist_def storeArticleComparisons_def
       flush_def storeCollides_def committedDatabase_def Let_def split: sum.splits)

lemma comparisonFieldsOrEmpty_Some [simp]:
  "comparisonFieldsOrEmpty (Some \<lparr>comparisonFields = Some fs, skipIdStorage = skip\<rparr>) = fs"
  by (simp add: comparisonFieldsOrEmpty_def)

lemma testArticle_idHash [simp]: "flattened_idHash (testArticle guid title) = ''sha1:'' @ guid"
  by (cases title) (simp_all add: flattened_idHash_def testArticle_def)

section \<open>The shape of a later pass\<close>

lemma getArticlesToDeliverFromXml_later_pass:
  assumes "getArticlesFromXml env xml = Some (Inr articles)"
    and "articles \<noteq> []"
    and "hasArticlesStoredForFeed db fid"
  shows "getArticlesToDeliverFromXml env db xml fid blockingComparisons passingComparisons dateChecks =
         Some (databaseAfterPass env db fid articles blockingComparisons passingComparisons,
               Inr \<lparr>articlesToDeliver =
                      filterArticlesBasedOnDateChecks env
                        (rev (articlesPastBlocksOf env db fid articles blockingComparisons
                                passingComparisons @
                              articlesPassedComparisonsOf env db fid articles blockingComparisons
                                passingComparisons)) dateChecks,
                    allArticles = articles\<rparr>)"
  using assms
  by (simp add: getArticlesToDeliverFromXml_def Let_def storeArticles_eq databaseAfterPass_def
      storeStep_def articlesPastBlocksOf_def articlesPassedComparisonsOf_def seenArticlesOf_def
      storedComparisonsOf_def unstoredComparisonsOf_def)

lemma getArticlesToDeliverFromXml_seed_pass:
  assumes "getArticlesFromXml env xml = Some (Inr articles)"
    and "articles \<noteq> []"
    and "\<not> hasArticlesStoredForFeed db fid"
  shows "getArticlesToDeliverFromXml env db xml fid blockingComparisons passingComparisons dateChecks =
         Some (fst (storeArticles env db fid articles
                 (Some \<lparr>comparisonFields = Some (blockingComparisons @ passingComparisons),
                        skipIdStorage = None\<rparr>)),
               Inr \<lparr>articlesToDeliver = [], allArticles = articles\<rparr>)"
  using assms
  by (simp add: getArticlesToDeliverFromXml_def Let_def storeArticles_eq)

lemma getArticlesToDeliverFromXml_no_articles:
  assumes "getArticlesFromXml env xml = Some (Inr [])"
  shows "getArticlesToDeliverFromXml env db xml fid blockingComparisons passingComparisons dateChecks =
         Some (db, Inr \<lparr>articlesToDeliver = [], allArticles = []\<rparr>)"
  using assms by (simp add: getArticlesToDeliverFromXml_def)

lemma map_filter_unless:
  "List.map_filter (\<lambda>x. if P x then None else Some x) xs = filter (\<lambda>x. \<not> P x) xs"
  by (induction xs) (simp_all add: List.map_filter_simps)

section \<open>Fields seen before\<close>

lemma articleFieldsSeenBefore_iff:
  "articleFieldsSeenBefore env db fid article fieldKeys \<longleftrightarrow>
     (\<exists>field \<in> set fieldKeys. fieldValueSeenBefore env db fid article field)"
proof (induction fieldKeys)
  case Nil
  then show ?case by (simp add: articleFieldsSeenBefore_def)
next
  case (Cons k ks)
  then show ?case
    by (auto simp: articleFieldsSeenBefore_def fieldValueSeenBefore_def someFieldsExist_def
        truthy_def Let_def list_ex_iff split: option.splits if_splits)
qed

lemma checkBlockingComparisons_filter:
  "checkBlockingComparisons env db fid blockingComparisons newArticles stored =
     filter (\<lambda>article. \<not> (\<exists>field \<in> set blockingComparisons \<inter> set stored.
                              fieldValueSeenBefore env db fid article field)) newArticles"
proof (cases "filter (\<lambda>r. r \<in> set stored) blockingComparisons = []")
  case True
  then have "set blockingComparisons \<inter> set stored = {}"
    by (auto simp: filter_empty_conv)
  with True show ?thesis
    by (simp add: checkBlockingComparisons_def)
next
  case False
  then have "blockingComparisons \<noteq> []" by auto
  moreover have "set (filter (\<lambda>r. r \<in> set stored) blockingComparisons) =
      set blockingComparisons \<inter> set stored" by auto
  ultimately show ?thesis
    using False
    by (auto simp: checkBlockingComparisons_def Let_def map_filter_unless
        articleFieldsSeenBefore_iff)
qed

lemma filterArticlesBasedOnDateChecks_subset:
  "set (filterArticlesBasedOnDateChecks env xs dateChecks) \<subseteq> set xs"
  by (auto simp: filterArticlesBasedOnDateChecks_def split: option.splits)

lemma checkPassingComparisons_subset:
  "set (checkPassingComparisons env db fid passing seen stored) \<subseteq> set seen"
  by (auto simp: checkPassingComparisons_def Let_def map_filter_unless)

lemma new_not_seen:
  "article \<in> set (filterForNewArticles db fid articles) \<Longrightarrow>
   article \<notin> set (seenArticlesOf db fid articles)"
  by (auto simp: seenArticlesOf_def find_None_iff)

section \<open>The first valid date\<close>

lemma first_valid_of_parsed:
  "(case filter (\<lambda>d. d \<noteq> None) (map (placeholderDate env a) ps) of [] \<Rightarrow> None | d # _ \<Rightarrow> d) =
   firstValidDate env a ps"
  by (induction ps) (auto split: option.splits)

lemma articleDateValue_firstValidDate:
  "articleDateValue env checks a = firstValidDate env a (placeholdersToUse checks)"
proof -
  have "(\<lambda>placeholder. dayjs env (if truthy (rawValue (raw a) placeholder)
                                then the (rawValue (raw a) placeholder)
                                else ''invalid date'')) = placeholderDate env a"
    by (auto simp: placeholderDate_def truthy_def fun_eq_iff split: option.splits)
  then show ?thesis
    unfolding articleDateValue_def Let_def placeholdersToUse_def
    by (simp only: first_valid_of_parsed)
qed

section \<open>The new articles\<close>

lemma update_fresh: "k \<notin> fst ` set m \<Longrightarrow> AList.update k v m = m @ [(k, v)]"
  by (induction m) auto

lemma foldl_update_distinct:
  "distinct (map k xs) \<Longrightarrow> k ` set xs \<inter> fst ` set m = {} \<Longrightarrow>
   foldl (\<lambda>m a. AList.update (k a) a m) m xs = m @ map (\<lambda>a. (k a, a)) xs"
proof (induction xs arbitrary: m)
  case Nil
  then show ?case by simp
next
  case (Cons x xs)
  from Cons.prems have fresh: "k x \<notin> fst ` set m" by auto
  from Cons.prems have "k ` set xs \<inter> fst ` set (m @ [(k x, x)]) = {}" by auto
  with Cons.IH [of "m @ [(k x, x)]"] Cons.prems fresh show ?case
    by (simp add: update_fresh)
qed

lemma foldl_update_keys:
  "fst ` set (foldl (\<lambda>m a. AList.update (k a) a m) m xs) = fst ` set m \<union> k ` set xs"
  by (induction xs arbitrary: m) (auto simp: AList.dom_update)

lemma foldl_update_distinct_keys:
  "distinct (map fst m) \<Longrightarrow> distinct (map fst (foldl (\<lambda>m a. AList.update (k a) a m) m xs))"
  by (induction xs arbitrary: m) (auto simp: AList.distinct_update)

lemma set_update_subset: "set (AList.update k v m) \<subseteq> insert (k, v) (set m)"
  by (induction m) auto

lemma foldl_update_values:
  "(\<And>key v. (key, v) \<in> set m \<Longrightarrow> k v = key) \<Longrightarrow>
   (key, v) \<in> set (foldl (\<lambda>m a. AList.update (k a) a m) m xs) \<Longrightarrow> k v = key"
proof (induction xs arbitrary: m)
  case Nil
  then show ?case by simp
next
  case (Cons x xs)
  have "\<And>key v. (key, v) \<in> set (AList.update (k x) x m) \<Longrightarrow> k v = key"
    using Cons.prems(1) set_update_subset [of "k x" x m] by auto
  with Cons.IH [of "AList.update (k x) x m"] Cons.prems(2) show ?case by simp
qed

lemma mapOfArticles_keys: "fst ` set (mapOfArticles articles) = flattened_idHash ` set articles"
  by (simp add: mapOfArticles_def foldl_update_keys)

lemma mapOfArticles_distinct: "distinct (map fst (mapOfArticles articles))"
  by (simp add: mapOfArticles_def foldl_update_distinct_keys)

lemma mapOfArticles_values:
  "(key, v) \<in> set (mapOfArticles articles) \<Longrightarrow> flattened_idHash v = key"
  unfolding mapOfArticles_def by (rule foldl_update_values [where m = "[]"]) auto

lemma found_iff:
  "i \<in> set candidates \<Longrightarrow>
   i \<in> set (map fieldHashedValue (findIdFieldsForFeed db fid candidates)) \<longleftrightarrow> idHashStored db fid i"
  by (auto simp: findIdFieldsForFeed_def idHashStored_def rowKey_def image_iff)

lemma filterForNewArticles_eq:
  "filterForNewArticles db fid articles =
     List.map_filter (map_of (mapOfArticles articles))
       (filter (\<lambda>i. \<not> idHashStored db fid i) (map fst (mapOfArticles articles)))"
proof -
  have "filter (\<lambda>i. i \<notin> set (map fieldHashedValue
            (findIdFieldsForFeed db fid (map fst (mapOfArticles articles)))))
          (map fst (mapOfArticles articles)) =
        filter (\<lambda>i. \<not> idHashStored db fid i) (map fst (mapOfArticles articles))"
    by (rule filter_cong) (auto simp: found_iff simp del: set_map)
  then show ?thesis
    by (simp add: filterForNewArticles_def mapOfArticles_def Let_def)
qed

lemma map_filter_map_of:
  "distinct (map fst m) \<Longrightarrow> set ks \<subseteq> fst ` set m \<Longrightarrow>
   map f (List.map_filter (map_of m) ks) = map (\<lambda>key. f (the (map_of m key))) ks \<and>
   length (List.map_filter (map_of m) ks) = length ks"
proof (induction ks)
  case Nil
  then show ?case by (simp add: List.map_filter_simps)
next
  case (Cons key ks)
  then obtain v where "map_of m key = Some v"
    by (cases "map_of m key") (auto simp: map_of_eq_None_iff)
  with Cons show ?case by (simp add: List.map_filter_simps)
qed

lemma newArticles_idHashes:
  "map flattened_idHash (filterForNewArticles db fid articles) =
     filter (\<lambda>i. \<not> idHashStored db fid i) (map fst (mapOfArticles articles))"
proof -
  let ?m = "mapOfArticles articles"
  let ?ks = "filter (\<lambda>i. \<not> idHashStored db fid i) (map fst ?m)"
  have sub: "set ?ks \<subseteq> fst ` set ?m" by auto
  have "map flattened_idHash (List.map_filter (map_of ?m) ?ks) =
        map (\<lambda>key. flattened_idHash (the (map_of ?m key))) ?ks"
    using map_filter_map_of [OF mapOfArticles_distinct sub] by blast
  also have "\<dots> = map (\<lambda>key. key) ?ks"
  proof (rule map_cong [OF refl])
    fix key assume "key \<in> set ?ks"
    then have "key \<in> fst ` set ?m" by auto
    then obtain v where v: "(key, v) \<in> set ?m" by auto
    with mapOfArticles_distinct have "map_of ?m key = Some v" by simp
    with v show "flattened_idHash (the (map_of ?m key)) = key"
      by (simp add: mapOfArticles_values)
  qed
  finally show ?thesis by (simp add: filterForNewArticles_eq)
qed

lemma newArticles_distinct: "distinct (map flattened_idHash (filterForNewArticles db fid articles))"
  by (simp add: newArticles_idHashes mapOfArticles_distinct)

lemma newArticles_not_stored:
  "a \<in> set (filterForNewArticles db fid articles) \<Longrightarrow> \<not> idHashStored db fid (flattened_idHash a)"
proof -
  assume "a \<in> set (filterForNewArticles db fid articles)"
  then have "flattened_idHash a \<in> set (map flattened_idHash (filterForNewArticles db fid articles))"
    by simp
  then show ?thesis unfolding newArticles_idHashes by simp
qed

lemma article_new_or_stored:
  "a \<in> set articles \<Longrightarrow>
   idHashStored db fid (flattened_idHash a) \<or>
   flattened_idHash a \<in> flattened_idHash ` set (filterForNewArticles db fid articles)"
proof -
  assume "a \<in> set articles"
  then have "flattened_idHash a \<in> set (map fst (mapOfArticles articles))"
    using mapOfArticles_keys by auto
  then have "idHashStored db fid (flattened_idHash a) \<or>
     flattened_idHash a \<in> set (map flattened_idHash (filterForNewArticles db fid articles))"
    unfolding newArticles_idHashes by simp
  then show ?thesis by simp
qed

lemma no_new_when_all_stored:
  "(\<And>a. a \<in> set articles \<Longrightarrow> idHashStored db fid (flattened_idHash a)) \<Longrightarrow>
   filterForNewArticles db fid articles = []"
proof -
  assume stored: "\<And>a. a \<in> set articles \<Longrightarrow> idHashStored db fid (flattened_idHash a)"
  have "filter (\<lambda>i. \<not> idHashStored db fid i) (map fst (mapOfArticles articles)) = []"
    using stored mapOfArticles_keys [of articles] by (auto simp: filter_empty_conv)
  then have "map flattened_idHash (filterForNewArticles db fid articles) = []"
    by (simp add: newArticles_idHashes)
  then show ?thesis by simp
qed

lemma filterForNewArticles_distinct:
  assumes "distinct (map flattened_idHash articles)"
  shows "filterForNewArticles db fid articles =
         filter (\<lambda>a. \<not> idHashStored db fid (flattened_idHash a)) articles"
proof -
  have m: "mapOfArticles articles = map (\<lambda>a. (flattened_idHash a, a)) articles"
    using foldl_update_distinct [of flattened_idHash articles "[]"] assms
    by (simp add: mapOfArticles_def)
  have "List.map_filter (map_of (map (\<lambda>a. (flattened_idHash a, a)) xs))
          (filter P (map flattened_idHash ys)) = filter (\<lambda>a. P (flattened_idHash a)) ys"
    if "distinct (map flattened_idHash xs)" and "set ys \<subseteq> set xs" for P xs ys
    using that
  proof (induction ys)
    case Nil
    then show ?case by (simp add: List.map_filter_simps)
  next
    case (Cons y ys)
    from Cons.prems have "map_of (map (\<lambda>a. (flattened_idHash a, a)) xs) (flattened_idHash y) = Some y"
      by (intro map_of_is_SomeI) (auto simp: comp_def)
    with Cons show ?case by (simp add: List.map_filter_simps)
  qed
  from this [of articles articles] assms show ?thesis
    by (simp add: filterForNewArticles_eq m comp_def)
qed

lemma idHashStored_committed:
  "a \<in> set articles \<Longrightarrow>
   idHashStored (committedDatabase env db fid articles fieldKeys) fid (flattened_idHash a)"
  by (force simp: committedDatabase_def idHashStored_def idFieldRows_def rowKey_def image_iff)

lemma idHashStored_mono:
  "set (fieldRows db) \<subseteq> set (fieldRows db') \<Longrightarrow> idHashStored db fid h \<Longrightarrow>
   idHashStored db' fid h"
  by (auto simp: idHashStored_def)

section \<open>The order of delivery\<close>

lemma checkPassingComparisons_filter:
  "checkPassingComparisons env db fid passing seen stored =
     filter (\<lambda>a. checkPassingComparisons env db fid passing [a] stored = [a]) seen"
proof (cases "length passing = 0 \<or> length (filter (\<lambda>r. r \<in> set stored) passing) = 0 \<or>
    length (map fst (filter snd (areComparisonsStored db fid passing))) = 0")
  case True
  then have "checkPassingComparisons env db fid passing xs stored = []" for xs
    by (auto simp: checkPassingComparisons_def Let_def)
  then show ?thesis by simp
next
  case False
  then have "checkPassingComparisons env db fid passing xs stored =
      filter (\<lambda>a. \<not> articleFieldsSeenBefore env db fid a
                     (map fst (filter snd (areComparisonsStored db fid passing)))) xs" for xs
    by (cases xs) (auto simp: checkPassingComparisons_def Let_def map_filter_unless)
  then show ?thesis by simp
qed

lemma filterArticlesBasedOnDateChecks_filter:
  "filterArticlesBasedOnDateChecks env xs dateChecks =
     filter (\<lambda>a. filterArticlesBasedOnDateChecks env [a] dateChecks = [a]) xs"
  by (auto simp: filterArticlesBasedOnDateChecks_def split: option.splits)

lemma delivery_order_general:
  assumes new: "new = filter N articles"
    and seen: "seen = filter S articles"
    and compl: "\<And>a. a \<in> set articles \<Longrightarrow> S a \<longleftrightarrow> \<not> N a"
    and pb: "pb = filter P1 new"
    and ps: "ps = filter P2 seen"
    and D: "D = filter K (rev (pb @ ps))"
  shows "D = rev (filter (\<lambda>a. a \<in> set D \<and> a \<in> set seen) articles) @
             rev (filter (\<lambda>a. a \<in> set D \<and> a \<in> set new) articles)"
proof -
  have s: "filter (\<lambda>a. a \<in> set D \<and> a \<in> set seen) articles = filter K ps"
    unfolding ps seen filter_filter
    by (rule filter_cong) (use compl in \<open>auto simp: D pb ps new seen\<close>)
  have n: "filter (\<lambda>a. a \<in> set D \<and> a \<in> set new) articles = filter K pb"
    unfolding pb new filter_filter
    by (rule filter_cong) (use compl in \<open>auto simp: D pb ps new seen\<close>)
  show ?thesis
    unfolding s n by (simp add: D rev_filter)
qed

lemma seenArticlesOf_distinct:
  assumes "distinct (map flattened_idHash articles)"
  shows "seenArticlesOf db fid articles =
         filter (\<lambda>a. idHashStored db fid (flattened_idHash a)) articles"
  unfolding seenArticlesOf_def filterForNewArticles_distinct [OF assms]
  by (rule filter_cong) (auto simp: find_None_iff)

section \<open>The parser\<close>




lemma parseEvents_Readable:
  "parseEvents env r rawItems (map Readable reads @ ev) =
     parseEvents env (foldl (recordArticle env) r (concat reads)) (rawItems @ concat reads) ev"
  by (induction reads arbitrary: r rawItems) simp_all










section \<open>Running the pass again\<close>

lemma storedComparisonsOf_filter:
  "storedComparisonsOf db fid names =
     filter (\<lambda>name. \<exists>c \<in> set (comparisonRows db). feed_id c = fid \<and> field_name c = name) names"
proof -
  have "map fst (filter snd (map (\<lambda>field. (field, P field)) names)) = filter P names" for P
    by (induction names) auto
  then have "storedComparisonsOf db fid names =
      filter (\<lambda>field. field \<in> set (map field_name (comparisonRepoFind db fid names))) names"
    by (simp add: storedComparisonsOf_def areComparisonsStored_def Let_def)
  also have "\<dots> = filter (\<lambda>name. \<exists>c \<in> set (comparisonRows db).
      feed_id c = fid \<and> field_name c = name) names"
    by (rule filter_cong) (auto simp: comparisonRepoFind_def)
  finally show ?thesis .
qed

lemma storedComparisonsOf_Nil [simp]: "storedComparisonsOf db fid [] = []"
  by (simp add: storedComparisonsOf_filter)

lemma checkPassingComparisons_eq:
  "checkPassingComparisons env db fid passing seen (storedComparisonsOf db fid (blocking @ passing)) =
     (if storedComparisonsOf db fid passing = [] then []
      else filter (\<lambda>a. \<not> articleFieldsSeenBefore env db fid a (storedComparisonsOf db fid passing))
             seen)"
proof -
  have current: "filter (\<lambda>r. r \<in> set (storedComparisonsOf db fid (blocking @ passing))) passing =
      storedComparisonsOf db fid passing"
    unfolding storedComparisonsOf_filter [of db fid passing]
    by (rule filter_cong) (auto simp: storedComparisonsOf_filter)
  have relevant: "map fst (filter snd (areComparisonsStored db fid passing)) =
      storedComparisonsOf db fid passing"
    by (simp add: storedComparisonsOf_def)
  have unfolded: "checkPassingComparisons env db fid passing seen
      (storedComparisonsOf db fid (blocking @ passing)) =
     (if length seen = 0 then seen
      else if length passing = 0 \<or> length (storedComparisonsOf db fid passing) = 0 then []
      else if length (storedComparisonsOf db fid passing) = 0 then []
      else List.map_filter (\<lambda>article.
             if articleFieldsSeenBefore env db fid article (storedComparisonsOf db fid passing)
             then None else Some article) seen)"
    unfolding checkPassingComparisons_def Let_def current relevant ..
  show ?thesis
  proof (cases "storedComparisonsOf db fid passing = []")
    case True
    then show ?thesis
      unfolding unfolded by simp
  next
    case False
    then have "passing \<noteq> []" by auto
    with False show ?thesis
      unfolding unfolded by (simp add: map_filter_unless)
  qed
qed

lemma noArticlePasses_none:
  assumes "noArticlePasses env db fid articles passing" and "set seen \<subseteq> set articles"
  shows "checkPassingComparisons env db fid passing seen
           (storedComparisonsOf db fid (blocking @ passing)) = []"
proof (cases "storedComparisonsOf db fid passing = []")
  case True
  then show ?thesis by (simp add: checkPassingComparisons_eq)
next
  case False
  with assms(1) have "\<forall>a \<in> set articles. \<exists>field \<in> set (storedComparisonsOf db fid passing).
      fieldValueSeenBefore env db fid a field"
    by (simp add: noArticlePasses_def list_all_iff list_ex_iff)
  with assms(2) have "\<forall>a \<in> set seen.
      articleFieldsSeenBefore env db fid a (storedComparisonsOf db fid passing)"
    by (auto simp: articleFieldsSeenBefore_iff)
  then show ?thesis
    by (simp add: checkPassingComparisons_eq filter_empty_conv)
qed

lemma hasArticlesStoredForFeed_iff:
  "hasArticlesStoredForFeed db fid \<longleftrightarrow> (\<exists>h. idHashStored db fid h)"
proof
  assume "hasArticlesStoredForFeed db fid"
  then obtain r where r: "r \<in> set (fieldRows db)" and "feedId r = fid" and "fieldName r = ''id''"
    unfolding hasArticlesStoredForFeed_def list_ex_iff by blast
  then have "rowKey r = (fid, ''id'', fieldHashedValue r)"
    by (simp add: rowKey_def)
  with r have "idHashStored db fid (fieldHashedValue r)"
    unfolding idHashStored_def by (metis imageI)
  then show "\<exists>h. idHashStored db fid h" ..
next
  assume "\<exists>h. idHashStored db fid h"
  then obtain h r where "r \<in> set (fieldRows db)" and "rowKey r = (fid, ''id'', h)"
    unfolding idHashStored_def image_iff by metis
  then have "r \<in> set (fieldRows db) \<and> feedId r = fid \<and> fieldName r = ''id''"
    by (simp add: rowKey_def)
  then show "hasArticlesStoredForFeed db fid"
    unfolding hasArticlesStoredForFeed_def list_ex_iff by blast
qed

lemma filterArticlesBasedOnDateChecks_Nil [simp]:
  "filterArticlesBasedOnDateChecks env [] dateChecks = []"
  by (simp add: filterArticlesBasedOnDateChecks_def split: option.splits)

lemma checkBlockingComparisons_Nil [simp]:
  "checkBlockingComparisons env db fid blocking [] stored = []"
  by (simp add: checkBlockingComparisons_def)

lemma rerun_when_nothing_new_or_passing:
  assumes parse: "getArticlesFromXml env xml = Some (Inr articles)"
    and nonempty: "articles \<noteq> []"
    and stored: "allIdHashesStored db fid articles"
    and passes: "noArticlePasses env db fid articles passingComparisons"
  shows "getArticlesToDeliverFromXml env db xml fid blockingComparisons passingComparisons
           dateChecks =
         Some (databaseAfterPass env db fid articles blockingComparisons passingComparisons,
               Inr \<lparr>articlesToDeliver = [], allArticles = articles\<rparr>)"
proof -
  from nonempty obtain a where "a \<in> set articles" by (cases articles) auto
  with stored have prior: "hasArticlesStoredForFeed db fid"
    by (auto simp: hasArticlesStoredForFeed_iff allIdHashesStored_def list_all_iff)
  from stored have new: "filterForNewArticles db fid articles = []"
    by (intro no_new_when_all_stored) (simp add: allIdHashesStored_def list_all_iff)
  have "set (seenArticlesOf db fid articles) \<subseteq> set articles"
    by (auto simp: seenArticlesOf_def)
  with passes have passed: "articlesPassedComparisonsOf env db fid articles blockingComparisons
      passingComparisons = []"
    unfolding articlesPassedComparisonsOf_def by (rule noArticlePasses_none)
  show ?thesis
    by (simp add: getArticlesToDeliverFromXml_later_pass [OF parse nonempty prior]
        articlesPastBlocksOf_def new passed)
qed

lemma storeStep_mono:
  "set (fieldRows db) \<subseteq> set (fieldRows (storeStep env db fid articles fieldKeys))"
  by (auto simp: storeStep_def committedDatabase_def)

lemma databaseAfterPass_mono:
  "set (fieldRows (storeStep env db fid (filterForNewArticles db fid articles)
          (storedComparisonsOf db fid (blocking @ passing)))) \<subseteq>
   set (fieldRows (databaseAfterPass env db fid articles blocking passing))"
proof -
  let ?stored = "storedComparisonsOf db fid (blocking @ passing)"
  let ?unstored = "unstoredComparisonsOf db fid (blocking @ passing)"
  let ?db1 = "storeStep env db fid (filterForNewArticles db fid articles) ?stored"
  let ?db2 = "storeStep env ?db1 fid
                (articlesPassedComparisonsOf env db fid articles blocking passing) ?stored"
  have 12: "set (fieldRows ?db1) \<subseteq> set (fieldRows ?db2)"
    by (rule storeStep_mono)
  have 23: "set (fieldRows ?db2) \<subseteq> set (fieldRows (storeStep env ?db2 fid articles ?unstored))"
    by (rule storeStep_mono)
  have "databaseAfterPass env db fid articles blocking passing = ?db2 \<or>
        databaseAfterPass env db fid articles blocking passing =
          storeStep env ?db2 fid articles ?unstored"
    by (simp add: databaseAfterPass_def Let_def)
  with 12 23 show ?thesis by (metis subset_trans)
qed

lemma committed_new_articles_store_all:
  assumes free: "\<not> storeCollides env db fid (filterForNewArticles db fid articles) fieldKeys"
    and a: "a \<in> set articles"
  shows "idHashStored (storeStep env db fid (filterForNewArticles db fid articles) fieldKeys) fid
           (flattened_idHash a)"
proof -
  let ?new = "filterForNewArticles db fid articles"
  from article_new_or_stored [OF a, of db fid]
  show ?thesis
  proof
    assume "idHashStored db fid (flattened_idHash a)"
    then show ?thesis
      using storeStep_mono idHashStored_mono by blast
  next
    assume "flattened_idHash a \<in> flattened_idHash ` set ?new"
    then obtain a' where a': "a' \<in> set ?new" and eq: "flattened_idHash a' = flattened_idHash a"
      by auto
    from a' have "?new \<noteq> []" by auto
    with free have "storeStep env db fid ?new fieldKeys = committedDatabase env db fid ?new fieldKeys"
      by (simp add: storeStep_def)
    with idHashStored_committed [OF a', of env db fid fieldKeys] eq show ?thesis by simp
  qed
qed

lemma new_id_rows_do_not_collide:
  "\<not> persistCollides (idFieldRows env fid (filterForNewArticles db fid articles)) (fieldRows db)"
proof -
  let ?new = "filterForNewArticles db fid articles"
  have keys: "map rowKey (idFieldRows env fid ?new) =
      map (\<lambda>h. (fid, ''id'', h)) (map flattened_idHash ?new)"
    by (simp add: idFieldRows_def rowKey_def comp_def)
  have "distinct (map rowKey (idFieldRows env fid ?new))"
    unfolding keys using newArticles_distinct [of db fid articles]
    by (simp add: distinct_map inj_on_def)
  moreover have "rowKey r \<notin> set (map rowKey (fieldRows db))"
    if "r \<in> set (idFieldRows env fid ?new)" for r
  proof -
    from that obtain a where "a \<in> set ?new" and "rowKey r = (fid, ''id'', flattened_idHash a)"
      by (auto simp: idFieldRows_def rowKey_def)
    with newArticles_not_stored [of a db fid articles] show ?thesis
      by (simp add: idHashStored_def)
  qed
  ultimately show ?thesis
    by (auto simp: persistCollides_def list_ex_iff)
qed

section \<open>What a committed store leaves\<close>

lemma committed_comparison_value_stored:
  assumes "a \<in> set articles" and "field \<in> set fieldKeys"
    and "truthy (getNestedPrimitiveValue (flattened a) field)"
  shows "fieldValueSeenBefore env (committedDatabase env db fid articles fieldKeys) fid a field"
proof -
  from assms(3) obtain v where v: "getNestedPrimitiveValue (flattened a) field = Some v"
    and nonempty: "v \<noteq> []"
    by (auto simp: truthy_def split: option.splits)
  let ?row = "\<lparr>feedId = fid, fieldName = field, fieldHashedValue = sha1 env v,
                createdAt = now env\<rparr>"
  from assms v have "?row \<in> set (comparisonFieldRows env fid articles fieldKeys)"
    by (force simp: comparisonFieldRows_def Let_def)
  then have "?row \<in> set (fieldRows (committedDatabase env db fid articles fieldKeys))"
    by (simp add: committedDatabase_def)
  moreover have "rowKey ?row = (fid, field, sha1 env v)"
    by (simp add: rowKey_def)
  ultimately have "(fid, field, sha1 env v) \<in>
      rowKey ` set (fieldRows (committedDatabase env db fid articles fieldKeys))"
    by (metis imageI)
  with v nonempty show ?thesis
    by (simp add: fieldValueSeenBefore_def)
qed

lemma committed_comparison_registered:
  assumes "field \<in> set fieldKeys"
  shows "\<exists>c \<in> set (comparisonRows (committedDatabase env db fid articles fieldKeys)).
           feed_id c = fid \<and> field_name c = field"
proof (cases "List.find (\<lambda>n. field_name n = field) (comparisonRepoFind db fid fieldKeys)")
  case None
  with assms have "\<lparr>feed_id = fid, field_name = field\<rparr> \<in>
      set (comparisonNamesToStore db fid fieldKeys)"
    by (simp add: comparisonNamesToStore_def Let_def)
  then have "\<lparr>feed_id = fid, field_name = field\<rparr> \<in>
      set (comparisonRows (committedDatabase env db fid articles fieldKeys))"
    by (simp add: committedDatabase_def)
  then show ?thesis by force
next
  case (Some n)
  then have "n \<in> set (comparisonRepoFind db fid fieldKeys)" and "field_name n = field"
    by (auto simp: find_Some_iff)
  then have "n \<in> set (comparisonRows db)" and "feed_id n = fid" and "field_name n = field"
    by (auto simp: comparisonRepoFind_def)
  then show ?thesis
    by (auto simp: committedDatabase_def)
qed

lemma seed_id_rows_do_not_collide:
  assumes first: "\<not> hasArticlesStoredForFeed db fid"
    and distinct: "distinct (map flattened_idHash articles)"
  shows "\<not> persistCollides (idFieldRows env fid articles) (fieldRows db)"
proof -
  have keys: "map rowKey (idFieldRows env fid articles) =
      map (\<lambda>h. (fid, ''id'', h)) (map flattened_idHash articles)"
    by (simp add: idFieldRows_def rowKey_def comp_def)
  have "distinct (map rowKey (idFieldRows env fid articles))"
    unfolding keys using distinct by (simp add: distinct_map inj_on_def)
  moreover have "rowKey r \<notin> set (map rowKey (fieldRows db))"
    if "r \<in> set (idFieldRows env fid articles)" for r
  proof -
    from that obtain h where "rowKey r = (fid, ''id'', h)"
      by (auto simp: idFieldRows_def rowKey_def)
    moreover from first have "\<not> idHashStored db fid h"
      by (simp add: hasArticlesStoredForFeed_iff)
    ultimately show ?thesis by (simp add: idHashStored_def)
  qed
  ultimately show ?thesis
    by (auto simp: persistCollides_def list_ex_iff)
qed

section \<open>Properties of the articles service\<close>

text \<open>
  C1. A call of \<^verbatim>\<open>storeArticles\<close> with \<open>skipIdStorage = true\<close> is meant to insert no id
  rows, only comparison field rows and registry rows. The source never reads the option.
  On an empty store, storing one article with \<open>skipIdStorage = true\<close> and no comparison
  fields inserts the article's id row. In a later pass the same happens: the articles e and
  d are new, e repeats a stored title, so the transaction of the new articles is rolled
  back; the activation of the link comparison then stores all articles with
  \<open>skipIdStorage = true\<close>, and that call inserts the id rows of e and d.
\<close>

theorem storeArticles_skipIdStorage_inserts_id_row:
  "storeArticles testServices emptyDatabase ''feed'' [testArticle ''a'' None]
     (Some \<lparr>comparisonFields = Some [], skipIdStorage = Some True\<rparr>) =
   (\<lparr>fieldRows = [testRow ''id'' ''sha1:a''], comparisonRows = []\<rparr>, None) \<and>
   storeArticles testServices blockDatabase ''feed''
     [testArticle ''e'' (Some ''Hello''), testArticle ''d'' (Some ''New'')]
     (Some \<lparr>comparisonFields = Some [''link''], skipIdStorage = Some True\<rparr>) =
   (\<lparr>fieldRows = [testRow ''id'' ''sha1:a'', testRow ''title'' ''sha1:Hello'',
                    testRow ''id'' ''sha1:e'', testRow ''id'' ''sha1:d''],
      comparisonRows = [testComparison ''title'', testComparison ''link'']\<rparr>, None) \<and>
   map_option fst
     (getArticlesToDeliverFromXml testServices blockDatabase
        (testFeed [(''e'', Some ''Hello''), (''d'', Some ''New'')]) ''feed''
        [''title''] [''link''] None) =
   Some \<lparr>fieldRows = [testRow ''id'' ''sha1:a'', testRow ''title'' ''sha1:Hello'',
                       testRow ''id'' ''sha1:e'', testRow ''id'' ''sha1:d''],
         comparisonRows = [testComparison ''title'', testComparison ''link'']\<rparr>"
  by code_simp

text \<open>
  C2 (as amended). For a feed with prior stored state, running
  \<^verbatim>\<open>getArticlesToDeliverFromXml\<close> again on the identical XML right after a completed
  later pass returns articlesToDeliver = [] whenever the first pass left the id row of
  every parsed article stored and left no parsed article that passes the passing check.
  The first holds when the transaction of the new articles met no unique-constraint
  violation, the second when there are no passing comparisons; with no comparisons at all
  the rerun always returns articlesToDeliver = [].
\<close>

theorem rerun_delivers_nothing:
  assumes parse: "getArticlesFromXml env xml = Some (Inr articles)"
    and nonempty: "articles \<noteq> []"
    and prior: "hasArticlesStoredForFeed db fid"
    and run: "getArticlesToDeliverFromXml env db xml fid blockingComparisons passingComparisons
                dateChecks = Some (db1, Inr out1)"
  shows "(allIdHashesStored db1 fid articles \<and>
          noArticlePasses env db1 fid articles passingComparisons \<longrightarrow>
            immediateRerun env db xml fid blockingComparisons passingComparisons dateChecks =
              Some (Inr \<lparr>articlesToDeliver = [], allArticles = articles\<rparr>)) \<and>
         (\<not> storeCollides env db fid (filterForNewArticles db fid articles)
              (storedComparisonsOf db fid (blockingComparisons @ passingComparisons)) \<longrightarrow>
            allIdHashesStored db1 fid articles) \<and>
         (passingComparisons = [] \<longrightarrow>
            noArticlePasses env db1 fid articles passingComparisons) \<and>
         (blockingComparisons = [] \<and> passingComparisons = [] \<longrightarrow>
            immediateRerun env db xml fid blockingComparisons passingComparisons dateChecks =
              Some (Inr \<lparr>articlesToDeliver = [], allArticles = articles\<rparr>))"
proof -
  let ?new = "filterForNewArticles db fid articles"
  let ?stored = "storedComparisonsOf db fid (blockingComparisons @ passingComparisons)"
  from run have db1: "db1 = databaseAfterPass env db fid articles blockingComparisons
      passingComparisons"
    by (simp add: getArticlesToDeliverFromXml_later_pass [OF parse nonempty prior])
  have again: "immediateRerun env db xml fid blockingComparisons passingComparisons dateChecks =
              Some (Inr \<lparr>articlesToDeliver = [], allArticles = articles\<rparr>)"
    if "allIdHashesStored db1 fid articles"
      and "noArticlePasses env db1 fid articles passingComparisons"
    using rerun_when_nothing_new_or_passing [OF parse nonempty that, of blockingComparisons
        dateChecks] run
    by (simp add: immediateRerun_def)
  have stored: "allIdHashesStored db1 fid articles" if free: "\<not> storeCollides env db fid ?new ?stored"
  proof -
    have "idHashStored db1 fid (flattened_idHash a)" if "a \<in> set articles" for a
      using committed_new_articles_store_all [OF free that] databaseAfterPass_mono
        idHashStored_mono
      unfolding db1 by blast
    then show ?thesis by (simp add: allIdHashesStored_def list_all_iff)
  qed
  have passes: "noArticlePasses env db1 fid articles passingComparisons"
    if "passingComparisons = []"
    using that by (simp add: noArticlePasses_def)
  have free: "\<not> storeCollides env db fid ?new ?stored"
    if "blockingComparisons = [] \<and> passingComparisons = []"
    using that new_id_rows_do_not_collide [of env fid db articles]
    by (simp add: storeCollides_def)
  from again stored passes free show ?thesis by blast
qed

text \<open>
  C2, counterexample to the statement without these conditions: the title comparison is
  activated as a passing comparison and the seen article a has no title. No field of it has been seen before, so it passes and is
  delivered; nothing of it is stored, and the immediate rerun delivers it again.
\<close>

theorem rerun_delivers_nothing_counterexample:
  "hasArticlesStoredForFeed passDatabase ''feed'' \<and>
   getArticlesToDeliverFromXml testServices passDatabase (testFeed [(''a'', None)]) ''feed''
     [] [''title''] None =
     Some (passDatabase,
           Inr \<lparr>articlesToDeliver = [testArticle ''a'' None],
                allArticles = [testArticle ''a'' None]\<rparr>) \<and>
   immediateRerun testServices passDatabase (testFeed [(''a'', None)]) ''feed'' [] [''title''] None =
     Some (Inr \<lparr>articlesToDeliver = [testArticle ''a'' None],
                allArticles = [testArticle ''a'' None]\<rparr>)"
  by code_simp

text \<open>
  Without comparisons: article a is stored, article d is new. The first pass delivers d
  and stores its id row; the rerun delivers nothing.
\<close>

theorem rerun_delivers_nothing_witness:
  "getArticlesFromXml testServices (testFeed [(''a'', Some ''A''), (''d'', Some ''D'')]) =
     Some (Inr [testArticle ''a'' (Some ''A''), testArticle ''d'' (Some ''D'')]) \<and>
   hasArticlesStoredForFeed seenDatabase ''feed'' \<and>
   getArticlesToDeliverFromXml testServices seenDatabase
     (testFeed [(''a'', Some ''A''), (''d'', Some ''D'')]) ''feed'' [] [] None =
     Some (\<lparr>fieldRows = [testRow ''id'' ''sha1:a'', testRow ''id'' ''sha1:d''],
            comparisonRows = []\<rparr>,
           Inr \<lparr>articlesToDeliver = [testArticle ''d'' (Some ''D'')],
                allArticles = [testArticle ''a'' (Some ''A''), testArticle ''d'' (Some ''D'')]\<rparr>) \<and>
   immediateRerun testServices seenDatabase
     (testFeed [(''a'', Some ''A''), (''d'', Some ''D'')]) ''feed'' [] [] None =
     Some (Inr \<lparr>articlesToDeliver = [],
                allArticles = [testArticle ''a'' (Some ''A''), testArticle ''d'' (Some ''D'')]\<rparr>)"
proof -
  let ?xml = "testFeed [(''a'', Some ''A''), (''d'', Some ''D'')]"
  let ?articles = "[testArticle ''a'' (Some ''A''), testArticle ''d'' (Some ''D'')]"
  have parse: "getArticlesFromXml testServices ?xml = Some (Inr ?articles)" by code_simp
  have nonempty: "?articles \<noteq> []" by simp
  have prior: "hasArticlesStoredForFeed seenDatabase ''feed''" by code_simp
  have run: "getArticlesToDeliverFromXml testServices seenDatabase ?xml ''feed'' [] [] None =
     Some (\<lparr>fieldRows = [testRow ''id'' ''sha1:a'', testRow ''id'' ''sha1:d''],
            comparisonRows = []\<rparr>,
           Inr \<lparr>articlesToDeliver = [testArticle ''d'' (Some ''D'')], allArticles = ?articles\<rparr>)"
    by code_simp
  from rerun_delivers_nothing [OF parse nonempty prior run]
  have "immediateRerun testServices seenDatabase ?xml ''feed'' [] [] None =
     Some (Inr \<lparr>articlesToDeliver = [], allArticles = ?articles\<rparr>)"
    by simp
  with parse prior run show ?thesis by simp
qed

text \<open>
  C10. Whenever the field store's \<open>persist\<close> raises a unique-constraint violation with code
  23505 inside \<^verbatim>\<open>storeArticles\<close> (at the id rows, or at the comparison field rows),
  \<^verbatim>\<open>storeArticles\<close> returns normally and the transaction is rolled back: the database
  is as it was, so none of the prepared id rows, comparison field rows and registry rows
  is persisted, colliding or not.
\<close>

theorem storeArticles_unique_violation_rolls_back:
  assumes "persist (idFieldRows env fid articles) \<lparr>em_db = db, em_pending = []\<rparr> =
             Inl (UniqueConstraintViolationException ''23505'') \<or>
           (\<exists>em1. persist (idFieldRows env fid articles) \<lparr>em_db = db, em_pending = []\<rparr> = Inr em1 \<and>
              storeArticleComparisons env em1 fid articles (comparisonFieldsOrEmpty options) =
                Inl (UniqueConstraintViolationException ''23505''))"
  shows "storeArticles env db fid articles options = (db, None)"
  using assms
  by (auto simp: storeArticles_def transactional_def Let_def)

text \<open>
  The id row of article a is stored; storing a and b collides on a, and b's id row, which
  collides with nothing, is not persisted either.
\<close>

theorem storeArticles_unique_violation_rolls_back_witness:
  "persist (idFieldRows testServices ''feed'' [testArticle ''a'' None, testArticle ''b'' None])
     \<lparr>em_db = seenDatabase, em_pending = []\<rparr> = Inl (UniqueConstraintViolationException ''23505'') \<and>
   storeArticles testServices seenDatabase ''feed'' [testArticle ''a'' None, testArticle ''b'' None]
     (Some \<lparr>comparisonFields = Some [''title''], skipIdStorage = None\<rparr>) = (seenDatabase, None)"
proof -
  have collide:
    "persist (idFieldRows testServices ''feed'' [testArticle ''a'' None, testArticle ''b'' None])
       \<lparr>em_db = seenDatabase, em_pending = []\<rparr> = Inl (UniqueConstraintViolationException ''23505'')"
    by (simp add: persist_def persistCollides_def idFieldRows_def seenDatabase_def testRow_def
        rowKey_def)
  from collide storeArticles_unique_violation_rolls_back [of testServices "''feed''"
      "[testArticle ''a'' None, testArticle ''b'' None]" seenDatabase
      "Some \<lparr>comparisonFields = Some [''title''], skipIdStorage = None\<rparr>"]
  show ?thesis by simp
qed

text \<open>
  C5. \<^verbatim>\<open>checkBlockingComparisons\<close> keeps a new article iff no activated blocking field
  of it (a blocking comparison that is among the stored comparisons) has been seen before
  for the feed. If blockingComparisons is empty, or no blocking comparison is activated,
  all new articles pass. A new article with such a field is in no \<open>articlesToDeliver\<close> of
  the pass.
\<close>

theorem checkBlockingComparisons_keeps_unseen:
  "checkBlockingComparisons env db fid blockingComparisons newArticles stored =
     filter (\<lambda>article. \<not> (\<exists>field \<in> set blockingComparisons \<inter> set stored.
                              fieldValueSeenBefore env db fid article field)) newArticles \<and>
   (set blockingComparisons \<inter> set stored = {} \<longrightarrow>
      checkBlockingComparisons env db fid blockingComparisons newArticles stored = newArticles) \<and>
   (blockingComparisons = [] \<longrightarrow>
      checkBlockingComparisons env db fid blockingComparisons newArticles stored = newArticles) \<and>
   (\<forall>article db' out.
      getArticlesToDeliverFromXml env db xml fid blockingComparisons passingComparisons dateChecks =
        Some (db', Inr out) \<and>
      article \<in> set (filterForNewArticles db fid (allArticles out)) \<and>
      (\<exists>field \<in> set blockingComparisons \<inter>
                   set (storedComparisonsOf db fid (blockingComparisons @ passingComparisons)).
         fieldValueSeenBefore env db fid article field) \<longrightarrow>
      article \<notin> set (articlesToDeliver out))"
proof -
  have deliver: "article \<notin> set (articlesToDeliver out)"
    if run: "getArticlesToDeliverFromXml env db xml fid blockingComparisons passingComparisons
               dateChecks = Some (db', Inr out)"
      and new: "article \<in> set (filterForNewArticles db fid (allArticles out))"
      and blocked: "\<exists>field \<in> set blockingComparisons \<inter>
                   set (storedComparisonsOf db fid (blockingComparisons @ passingComparisons)).
         fieldValueSeenBefore env db fid article field"
    for article db' out
  proof -
    from run obtain articles where parse: "getArticlesFromXml env xml = Some (Inr articles)"
      by (auto simp: getArticlesToDeliverFromXml_def split: option.splits sum.splits)
    show ?thesis
    proof (cases "articles \<noteq> [] \<and> hasArticlesStoredForFeed db fid")
      case True
      with parse run have out:
        "out = \<lparr>articlesToDeliver =
                      filterArticlesBasedOnDateChecks env
                        (rev (articlesPastBlocksOf env db fid articles blockingComparisons
                                passingComparisons @
                              articlesPassedComparisonsOf env db fid articles blockingComparisons
                                passingComparisons)) dateChecks,
                    allArticles = articles\<rparr>"
        by (simp add: getArticlesToDeliverFromXml_later_pass)
      then have all: "allArticles out = articles" by simp
      from blocked have "article \<notin> set (articlesPastBlocksOf env db fid articles
          blockingComparisons passingComparisons)"
        by (simp add: articlesPastBlocksOf_def checkBlockingComparisons_filter)
      moreover from new all have "article \<notin> set (articlesPassedComparisonsOf env db fid articles
          blockingComparisons passingComparisons)"
        using checkPassingComparisons_subset new_not_seen
        by (fastforce simp: articlesPassedComparisonsOf_def)
      ultimately show ?thesis
        using filterArticlesBasedOnDateChecks_subset out by fastforce
    next
      case False
      with parse run have "articlesToDeliver out = []"
        by (cases "articles = []")
          (auto simp: getArticlesToDeliverFromXml_no_articles getArticlesToDeliverFromXml_seed_pass)
      then show ?thesis by simp
    qed
  qed
  show ?thesis
    using deliver by (auto simp: checkBlockingComparisons_filter)
qed

text \<open>
  The title hash of ''Hello'' is stored and the title comparison is activated: the new
  article e with that title is blocked, the new article d is kept and delivered.
\<close>

theorem checkBlockingComparisons_keeps_unseen_witness:
  "getArticlesToDeliverFromXml testServices blockDatabase
     (testFeed [(''e'', Some ''Hello''), (''d'', Some ''New'')]) ''feed'' [''title''] [] None =
     Some (blockDatabase,
           Inr \<lparr>articlesToDeliver = [testArticle ''d'' (Some ''New'')],
                allArticles = [testArticle ''e'' (Some ''Hello''), testArticle ''d'' (Some ''New'')]\<rparr>) \<and>
   testArticle ''e'' (Some ''Hello'') \<in>
     set (filterForNewArticles blockDatabase ''feed''
            [testArticle ''e'' (Some ''Hello''), testArticle ''d'' (Some ''New'')]) \<and>
   fieldValueSeenBefore testServices blockDatabase ''feed'' (testArticle ''e'' (Some ''Hello''))
     ''title'' \<and>
   checkBlockingComparisons testServices blockDatabase ''feed'' [''title'']
     [testArticle ''e'' (Some ''Hello''), testArticle ''d'' (Some ''New'')] [''title''] =
     [testArticle ''d'' (Some ''New'')] \<and>
   checkBlockingComparisons testServices blockDatabase ''feed'' []
     [testArticle ''e'' (Some ''Hello''), testArticle ''d'' (Some ''New'')] [''title''] =
     [testArticle ''e'' (Some ''Hello''), testArticle ''d'' (Some ''New'')] \<and>
   testArticle ''e'' (Some ''Hello'') \<notin> set [testArticle ''d'' (Some ''New'')]"
proof -
  let ?e = "testArticle ''e'' (Some ''Hello'')"
  let ?d = "testArticle ''d'' (Some ''New'')"
  let ?xml = "testFeed [(''e'', Some ''Hello''), (''d'', Some ''New'')]"
  have run: "getArticlesToDeliverFromXml testServices blockDatabase ?xml ''feed'' [''title''] [] None =
     Some (blockDatabase, Inr \<lparr>articlesToDeliver = [?d], allArticles = [?e, ?d]\<rparr>)"
    by code_simp
  have new: "?e \<in> set (filterForNewArticles blockDatabase ''feed'' [?e, ?d])"
    by code_simp
  have stored: "storedComparisonsOf blockDatabase ''feed'' ([''title''] @ []) = [''title'']"
    by code_simp
  have seen: "fieldValueSeenBefore testServices blockDatabase ''feed'' ?e ''title''"
    by code_simp
  have kept: "filter (\<lambda>article. \<not> (\<exists>field \<in> set [''title''] \<inter> set [''title''].
                fieldValueSeenBefore testServices blockDatabase ''feed'' article field)) [?e, ?d] = [?d]"
    by code_simp
  note inst = checkBlockingComparisons_keeps_unseen [of testServices blockDatabase "''feed''"
      "[''title'']" "[?e, ?d]" "[''title'']" ?xml "[]" None]
  note inst0 = checkBlockingComparisons_keeps_unseen [of testServices blockDatabase "''feed''"
      "[]" "[?e, ?d]" "[''title'']" ?xml "[]" None]
  from inst have "?e \<notin> set (articlesToDeliver \<lparr>articlesToDeliver = [?d], allArticles = [?e, ?d]\<rparr>)"
    using run new stored seen by auto
  moreover from inst kept have "checkBlockingComparisons testServices blockDatabase ''feed'' [''title'']
     [?e, ?d] [''title''] = [?d]" by simp
  moreover from inst0 have "checkBlockingComparisons testServices blockDatabase ''feed'' []
     [?e, ?d] [''title''] = [?e, ?d]" by simp
  ultimately show ?thesis using run new seen by simp
qed

text \<open>
  C9 (as amended). \<^verbatim>\<open>filterArticlesBasedOnDateChecks\<close> is the identity when dateChecks or
  its threshold is absent, and also when the threshold is 0. Otherwise it keeps an article
  iff the first placeholder (of \<open>datePlaceholderReferences\<close>, by default date and pubdate)
  whose raw value parses as a valid date gives a date with \<open>now - date \<le> threshold\<close>; an
  article with no valid date is dropped, and no kept article has \<open>now - date > threshold\<close>.
\<close>

theorem filterArticlesBasedOnDateChecks_correct:
  "((dateChecks = None \<or>
     (\<exists>checks. dateChecks = Some checks \<and>
        (oldArticleDateDiffMsThreshold checks = None \<or>
         oldArticleDateDiffMsThreshold checks = Some 0))) \<longrightarrow>
    filterArticlesBasedOnDateChecks env articles dateChecks = articles) \<and>
   (\<forall>checks threshold.
      dateChecks = Some checks \<and> oldArticleDateDiffMsThreshold checks = Some threshold \<and>
      threshold \<noteq> 0 \<longrightarrow>
      filterArticlesBasedOnDateChecks env articles dateChecks =
        filter (\<lambda>a. \<exists>d. firstValidDate env a (placeholdersToUse checks) = Some d \<and>
                        now env - d \<le> threshold) articles \<and>
      (\<forall>a \<in> set (filterArticlesBasedOnDateChecks env articles dateChecks).
         \<exists>d. firstValidDate env a (placeholdersToUse checks) = Some d \<and>
             \<not> now env - d > threshold) \<and>
      (\<forall>a \<in> set articles.
         firstValidDate env a (placeholdersToUse checks) = None \<longrightarrow>
         a \<notin> set (filterArticlesBasedOnDateChecks env articles dateChecks)))"
proof -
  have active: "filterArticlesBasedOnDateChecks env articles (Some checks) =
        filter (\<lambda>a. \<exists>d. firstValidDate env a (placeholdersToUse checks) = Some d \<and>
                        now env - d \<le> threshold) articles"
    if "oldArticleDateDiffMsThreshold checks = Some threshold" and "threshold \<noteq> 0"
    for checks threshold
  proof -
    have "(\<lambda>a. case articleDateValue env checks a of None \<Rightarrow> False
               | Some dateValue \<Rightarrow> let diffMs = now env - dateValue in diffMs \<le> threshold) =
          (\<lambda>a. \<exists>d. firstValidDate env a (placeholdersToUse checks) = Some d \<and>
                        now env - d \<le> threshold)"
      by (auto simp: articleDateValue_firstValidDate fun_eq_iff split: option.splits)
    with that show ?thesis
      by (simp add: filterArticlesBasedOnDateChecks_def)
  qed
  have passthrough: "filterArticlesBasedOnDateChecks env articles dateChecks = articles"
    if "dateChecks = None \<or>
     (\<exists>checks. dateChecks = Some checks \<and>
        (oldArticleDateDiffMsThreshold checks = None \<or>
         oldArticleDateDiffMsThreshold checks = Some 0))"
    using that by (auto simp: filterArticlesBasedOnDateChecks_def)
  show ?thesis
    using passthrough by (auto simp: active)
qed

text \<open>
  With now = 5000 and an article dated 1000: a threshold of 4000 keeps it, a threshold of
  3999 drops it, the article without a date is dropped, and no threshold keeps both.
\<close>

theorem filterArticlesBasedOnDateChecks_correct_witness:
  "filterArticlesBasedOnDateChecks testServices [datedArticle ''a'', testArticle ''b'' None]
     (Some \<lparr>datePlaceholderReferences = None, oldArticleDateDiffMsThreshold = Some 4000\<rparr>) =
     [datedArticle ''a''] \<and>
   filterArticlesBasedOnDateChecks testServices [datedArticle ''a'', testArticle ''b'' None]
     (Some \<lparr>datePlaceholderReferences = None, oldArticleDateDiffMsThreshold = Some 3999\<rparr>) = [] \<and>
   filterArticlesBasedOnDateChecks testServices [datedArticle ''a'', testArticle ''b'' None]
     (Some \<lparr>datePlaceholderReferences = None, oldArticleDateDiffMsThreshold = None\<rparr>) =
     [datedArticle ''a'', testArticle ''b'' None] \<and>
   firstValidDate testServices (datedArticle ''a'') [''date'', ''pubdate''] = Some 1000 \<and>
   firstValidDate testServices (testArticle ''b'' None) [''date'', ''pubdate''] = None \<and>
   now testServices = 5000"
proof -
  let ?articles = "[datedArticle ''a'', testArticle ''b'' None]"
  let ?checks = "\<lambda>t. \<lparr>datePlaceholderReferences = None, oldArticleDateDiffMsThreshold = t\<rparr>"
  have ph: "placeholdersToUse (?checks t) = [''date'', ''pubdate'']" for t
    by (simp add: placeholdersToUse_def)
  have a: "firstValidDate testServices (datedArticle ''a'') [''date'', ''pubdate''] = Some 1000"
    by code_simp
  have b: "firstValidDate testServices (testArticle ''b'' None) [''date'', ''pubdate''] = None"
    by code_simp
  have n: "now testServices = 5000" by code_simp
  have keep: "filter (\<lambda>x. \<exists>d. firstValidDate testServices x [''date'', ''pubdate''] = Some d \<and>
                   now testServices - d \<le> 4000) ?articles = [datedArticle ''a'']"
    by (simp add: a b n del: firstValidDate.simps)
  have drop: "filter (\<lambda>x. \<exists>d. firstValidDate testServices x [''date'', ''pubdate''] = Some d \<and>
                   now testServices - d \<le> 3999) ?articles = []"
    by (simp add: a b n del: firstValidDate.simps)
  from filterArticlesBasedOnDateChecks_correct [of "Some (?checks (Some 4000))" testServices ?articles]
  have "filterArticlesBasedOnDateChecks testServices ?articles (Some (?checks (Some 4000))) =
        filter (\<lambda>x. \<exists>d. firstValidDate testServices x [''date'', ''pubdate''] = Some d \<and>
                   now testServices - d \<le> 4000) ?articles"
    by (simp add: ph del: firstValidDate.simps)
  with keep have "filterArticlesBasedOnDateChecks testServices ?articles
      (Some (?checks (Some 4000))) = [datedArticle ''a'']" by simp
  moreover
  from filterArticlesBasedOnDateChecks_correct [of "Some (?checks (Some 3999))" testServices ?articles]
  have "filterArticlesBasedOnDateChecks testServices ?articles (Some (?checks (Some 3999))) =
        filter (\<lambda>x. \<exists>d. firstValidDate testServices x [''date'', ''pubdate''] = Some d \<and>
                   now testServices - d \<le> 3999) ?articles"
    by (simp add: ph del: firstValidDate.simps)
  with drop have "filterArticlesBasedOnDateChecks testServices ?articles
      (Some (?checks (Some 3999))) = []" by simp
  moreover
  from filterArticlesBasedOnDateChecks_correct [of "Some (?checks None)" testServices ?articles]
  have "filterArticlesBasedOnDateChecks testServices ?articles (Some (?checks None)) = ?articles"
    by simp
  ultimately show ?thesis using a b n by simp
qed

text \<open>
  C9, counterexample for a threshold that is present and 0: the filter is then the identity,
  and an article dated 4000 ms before now is kept although \<open>now - date > 0\<close>.
\<close>

theorem filterArticlesBasedOnDateChecks_zero_threshold_keeps_old:
  "filterArticlesBasedOnDateChecks testServices [datedArticle ''a'']
     (Some \<lparr>datePlaceholderReferences = None, oldArticleDateDiffMsThreshold = Some 0\<rparr>) =
     [datedArticle ''a''] \<and>
   firstValidDate testServices (datedArticle ''a'') [''date'', ''pubdate''] = Some 1000 \<and>
   now testServices - 1000 > 0"
  by code_simp

text \<open>
  C4 (as amended). For a non-empty parsed article list and a feed with no stored articles
  (the first poll), \<^verbatim>\<open>getArticlesToDeliverFromXml\<close> returns articlesToDeliver = [] with
  allArticles the parsed articles, whatever their number. It stores the articles in one
  transaction. When the transaction meets a unique-constraint violation it is rolled back
  and the database is left as it was. When it meets none, afterwards the id row of every
  article is stored, every non-empty value an article has in a blocking or passing
  comparison has its hash stored under that field, and every blocking or passing comparison
  is registered for the feed. Without comparisons and with pairwise distinct id hashes it
  meets none.
\<close>

theorem seed_pass_delivers_nothing:
  assumes parse: "getArticlesFromXml env xml = Some (Inr articles)"
    and nonempty: "articles \<noteq> []"
    and first: "\<not> hasArticlesStoredForFeed db fid"
  shows "\<exists>db'. getArticlesToDeliverFromXml env db xml fid blockingComparisons passingComparisons
                 dateChecks =
               Some (db', Inr \<lparr>articlesToDeliver = [], allArticles = articles\<rparr>) \<and>
             (storeCollides env db fid articles (blockingComparisons @ passingComparisons) \<longrightarrow>
                db' = db) \<and>
             (\<not> storeCollides env db fid articles (blockingComparisons @ passingComparisons) \<longrightarrow>
                (\<forall>a \<in> set articles. idHashStored db' fid (flattened_idHash a)) \<and>
                (\<forall>a \<in> set articles.
                   \<forall>field \<in> set blockingComparisons \<union> set passingComparisons.
                     truthy (getNestedPrimitiveValue (flattened a) field) \<longrightarrow>
                     fieldValueSeenBefore env db' fid a field) \<and>
                (\<forall>field \<in> set blockingComparisons \<union> set passingComparisons.
                   \<exists>c \<in> set (comparisonRows db'). feed_id c = fid \<and> field_name c = field)) \<and>
             (blockingComparisons = [] \<and> passingComparisons = [] \<and>
              distinct (map flattened_idHash articles) \<longrightarrow>
                \<not> storeCollides env db fid articles (blockingComparisons @ passingComparisons))"
proof -
  let ?keys = "blockingComparisons @ passingComparisons"
  let ?opts = "Some \<lparr>comparisonFields = Some ?keys, skipIdStorage = None\<rparr>"
  let ?db' = "fst (storeArticles env db fid articles ?opts)"
  have run: "getArticlesToDeliverFromXml env db xml fid blockingComparisons passingComparisons
                 dateChecks = Some (?db', Inr \<lparr>articlesToDeliver = [], allArticles = articles\<rparr>)"
    using parse nonempty first by (rule getArticlesToDeliverFromXml_seed_pass)
  have rolled: "?db' = db" if "storeCollides env db fid articles ?keys"
    using that by (simp add: storeArticles_eq)
  have committed: "?db' = committedDatabase env db fid articles ?keys"
    if "\<not> storeCollides env db fid articles ?keys"
    using that by (simp add: storeArticles_eq)
  have ids: "\<forall>a \<in> set articles. idHashStored ?db' fid (flattened_idHash a)"
    if "\<not> storeCollides env db fid articles ?keys"
    unfolding committed [OF that] by (simp add: idHashStored_committed)
  have fieldValues: "\<forall>a \<in> set articles.
                   \<forall>field \<in> set blockingComparisons \<union> set passingComparisons.
                     truthy (getNestedPrimitiveValue (flattened a) field) \<longrightarrow>
                     fieldValueSeenBefore env ?db' fid a field"
    if "\<not> storeCollides env db fid articles ?keys"
    unfolding committed [OF that] by (simp add: committed_comparison_value_stored)
  have names: "\<forall>field \<in> set blockingComparisons \<union> set passingComparisons.
                   \<exists>c \<in> set (comparisonRows ?db'). feed_id c = fid \<and> field_name c = field"
    if "\<not> storeCollides env db fid articles ?keys"
    unfolding committed [OF that] using committed_comparison_registered [of _ ?keys env db fid articles]
    by simp
  have free: "\<not> storeCollides env db fid articles ?keys"
    if "blockingComparisons = [] \<and> passingComparisons = [] \<and>
        distinct (map flattened_idHash articles)"
    using that seed_id_rows_do_not_collide [OF first, of articles env]
    by (simp add: storeCollides_def)
  from run rolled ids fieldValues names free show ?thesis by blast
qed

text \<open>
  C4, counterexample to id rows persisted on every first poll: two articles with the same
  title under the title comparison, and two articles with the same guid under no
  comparison. Each transaction collides in itself and is rolled back; nothing is delivered
  and no id row is stored.
\<close>

theorem seed_pass_delivers_nothing_counterexample:
  "\<not> hasArticlesStoredForFeed emptyDatabase ''feed'' \<and>
   getArticlesFromXml testServices (testFeed [(''n1'', Some ''Same''), (''n2'', Some ''Same'')]) =
     Some (Inr [testArticle ''n1'' (Some ''Same''), testArticle ''n2'' (Some ''Same'')]) \<and>
   getArticlesToDeliverFromXml testServices emptyDatabase
     (testFeed [(''n1'', Some ''Same''), (''n2'', Some ''Same'')]) ''feed'' [''title''] [] None =
     Some (emptyDatabase,
           Inr \<lparr>articlesToDeliver = [],
                allArticles = [testArticle ''n1'' (Some ''Same''),
                               testArticle ''n2'' (Some ''Same'')]\<rparr>) \<and>
   \<not> idHashStored emptyDatabase ''feed''
        (flattened_idHash (testArticle ''n1'' (Some ''Same''))) \<and>
   getArticlesFromXml testServices (testFeed [(''a'', Some ''A''), (''a'', Some ''B'')]) =
     Some (Inr [testArticle ''a'' (Some ''A''), testArticle ''a'' (Some ''B'')]) \<and>
   getArticlesToDeliverFromXml testServices emptyDatabase
     (testFeed [(''a'', Some ''A''), (''a'', Some ''B'')]) ''feed'' [] [] None =
     Some (emptyDatabase,
           Inr \<lparr>articlesToDeliver = [],
                allArticles = [testArticle ''a'' (Some ''A''),
                               testArticle ''a'' (Some ''B'')]\<rparr>) \<and>
   \<not> idHashStored emptyDatabase ''feed'' (flattened_idHash (testArticle ''a'' (Some ''A'')))"
  by code_simp

text \<open>
  A first poll of two articles with different titles under the title comparison: nothing
  is delivered; both id rows, the title hash and the registration of the title comparison
  are stored afterwards.
\<close>

theorem seed_pass_delivers_nothing_witness:
  "getArticlesFromXml testServices (testFeed [(''a'', Some ''A''), (''b'', Some ''B'')]) =
     Some (Inr [testArticle ''a'' (Some ''A''), testArticle ''b'' (Some ''B'')]) \<and>
   \<not> hasArticlesStoredForFeed emptyDatabase ''feed'' \<and>
   \<not> storeCollides testServices emptyDatabase ''feed''
        [testArticle ''a'' (Some ''A''), testArticle ''b'' (Some ''B'')] ([''title''] @ []) \<and>
   truthy (getNestedPrimitiveValue (flattened (testArticle ''b'' (Some ''B''))) ''title'') \<and>
   (\<exists>db'. getArticlesToDeliverFromXml testServices emptyDatabase
            (testFeed [(''a'', Some ''A''), (''b'', Some ''B'')]) ''feed'' [''title''] [] None =
            Some (db', Inr \<lparr>articlesToDeliver = [],
                             allArticles = [testArticle ''a'' (Some ''A''),
                                            testArticle ''b'' (Some ''B'')]\<rparr>) \<and>
          idHashStored db' ''feed'' (flattened_idHash (testArticle ''a'' (Some ''A''))) \<and>
          idHashStored db' ''feed'' (flattened_idHash (testArticle ''b'' (Some ''B''))) \<and>
          fieldValueSeenBefore testServices db' ''feed'' (testArticle ''b'' (Some ''B'')) ''title'' \<and>
          (\<exists>c \<in> set (comparisonRows db'). feed_id c = ''feed'' \<and> field_name c = ''title''))"
proof -
  let ?xml = "testFeed [(''a'', Some ''A''), (''b'', Some ''B'')]"
  let ?a = "testArticle ''a'' (Some ''A'')"
  let ?b = "testArticle ''b'' (Some ''B'')"
  have parse: "getArticlesFromXml testServices ?xml = Some (Inr [?a, ?b])"
    by code_simp
  have nonempty: "[?a, ?b] \<noteq> []" by simp
  have first: "\<not> hasArticlesStoredForFeed emptyDatabase ''feed''"
    by code_simp
  have free: "\<not> storeCollides testServices emptyDatabase ''feed'' [?a, ?b] ([''title''] @ [])"
    by code_simp
  have title: "truthy (getNestedPrimitiveValue (flattened ?b) ''title'')"
    by code_simp
  from seed_pass_delivers_nothing [OF parse nonempty first, of "[''title'']" "[]" None]
  obtain db' where
    run: "getArticlesToDeliverFromXml testServices emptyDatabase ?xml ''feed'' [''title''] [] None =
            Some (db', Inr \<lparr>articlesToDeliver = [], allArticles = [?a, ?b]\<rparr>)"
    and stored: "\<not> storeCollides testServices emptyDatabase ''feed'' [?a, ?b] ([''title''] @ []) \<longrightarrow>
                (\<forall>a \<in> set [?a, ?b]. idHashStored db' ''feed'' (flattened_idHash a)) \<and>
                (\<forall>a \<in> set [?a, ?b].
                   \<forall>field \<in> set [''title''] \<union> set [].
                     truthy (getNestedPrimitiveValue (flattened a) field) \<longrightarrow>
                     fieldValueSeenBefore testServices db' ''feed'' a field) \<and>
                (\<forall>field \<in> set [''title''] \<union> set [].
                   \<exists>c \<in> set (comparisonRows db'). feed_id c = ''feed'' \<and> field_name c = field)"
    by blast
  from stored free title have
    "idHashStored db' ''feed'' (flattened_idHash ?a) \<and>
     idHashStored db' ''feed'' (flattened_idHash ?b) \<and>
     fieldValueSeenBefore testServices db' ''feed'' ?b ''title'' \<and>
     (\<exists>c \<in> set (comparisonRows db'). feed_id c = ''feed'' \<and> field_name c = ''title'')"
    by simp
  with parse first free title run show ?thesis by blast
qed

text \<open>
  C3 (as amended). Within one later pass of \<^verbatim>\<open>getArticlesToDeliverFromXml\<close>, each of the
  three persistence sub-steps (the new articles, the passed articles, the newly activated
  comparisons) is a transaction of its own: each either commits all the rows it prepared
  (id rows, comparison field rows, registry rows) or leaves the database as it found it,
  and the sub-steps do so independently of one another.
\<close>

theorem later_pass_stores_each_step_atomically:
  assumes parse: "getArticlesFromXml env xml = Some (Inr articles)"
    and nonempty: "articles \<noteq> []"
    and prior: "hasArticlesStoredForFeed db fid"
  shows "\<exists>db1 db2 db3 out.
           getArticlesToDeliverFromXml env db xml fid blockingComparisons passingComparisons
             dateChecks = Some (db3, Inr out) \<and>
           (db1 = db \<or>
            db1 = committedDatabase env db fid (filterForNewArticles db fid articles)
                    (storedComparisonsOf db fid (blockingComparisons @ passingComparisons))) \<and>
           (db2 = db1 \<or>
            db2 = committedDatabase env db1 fid
                    (articlesPassedComparisonsOf env db fid articles blockingComparisons
                       passingComparisons)
                    (storedComparisonsOf db fid (blockingComparisons @ passingComparisons))) \<and>
           (db3 = db2 \<or>
            db3 = committedDatabase env db2 fid articles
                    (unstoredComparisonsOf db fid (blockingComparisons @ passingComparisons)))"
proof -
  have step: "storeStep env d fid as ks = d \<or> storeStep env d fid as ks = committedDatabase env d fid as ks"
    for d as ks
    by (simp add: storeStep_def)
  let ?stored = "storedComparisonsOf db fid (blockingComparisons @ passingComparisons)"
  let ?db1 = "storeStep env db fid (filterForNewArticles db fid articles) ?stored"
  let ?db2 = "storeStep env ?db1 fid
      (articlesPassedComparisonsOf env db fid articles blockingComparisons passingComparisons) ?stored"
  let ?db3 = "databaseAfterPass env db fid articles blockingComparisons passingComparisons"
  have "?db3 = ?db2 \<or> ?db3 = committedDatabase env ?db2 fid articles
                    (unstoredComparisonsOf db fid (blockingComparisons @ passingComparisons))"
    using step [of ?db2 articles "unstoredComparisonsOf db fid (blockingComparisons @ passingComparisons)"]
    by (auto simp: databaseAfterPass_def Let_def)
  with step [of db "filterForNewArticles db fid articles" ?stored]
    step [of ?db1 "articlesPassedComparisonsOf env db fid articles blockingComparisons
      passingComparisons" ?stored]
    getArticlesToDeliverFromXml_later_pass [OF parse nonempty prior, of blockingComparisons
      passingComparisons dateChecks]
  show ?thesis by blast
qed

text \<open>
  C3, counterexample to a single transaction around the three sub-steps: two new articles
  share a title and the title comparison is not yet activated. The first sub-step commits the two
  id rows; the third, which prepared the registry row and the title rows, is rolled back
  and its rows are lost.
\<close>

theorem later_pass_stores_each_step_atomically_counterexample:
  "getArticlesToDeliverFromXml testServices seenDatabase
     (testFeed [(''n1'', Some ''Same''), (''n2'', Some ''Same'')]) ''feed'' [''title''] [] None =
     Some (\<lparr>fieldRows = [testRow ''id'' ''sha1:a'', testRow ''id'' ''sha1:n1'',
                         testRow ''id'' ''sha1:n2''],
            comparisonRows = []\<rparr>,
           Inr \<lparr>articlesToDeliver = [testArticle ''n2'' (Some ''Same''),
                                     testArticle ''n1'' (Some ''Same'')],
                allArticles = [testArticle ''n1'' (Some ''Same''),
                               testArticle ''n2'' (Some ''Same'')]\<rparr>) \<and>
   idFieldRows testServices ''feed''
     (filterForNewArticles seenDatabase ''feed''
        [testArticle ''n1'' (Some ''Same''), testArticle ''n2'' (Some ''Same'')]) =
     [testRow ''id'' ''sha1:n1'', testRow ''id'' ''sha1:n2''] \<and>
   unstoredComparisonsOf seenDatabase ''feed'' ([''title''] @ []) = [''title''] \<and>
   comparisonNamesToStore seenDatabase ''feed'' [''title''] = [testComparison ''title''] \<and>
   comparisonFieldRows testServices ''feed''
     [testArticle ''n1'' (Some ''Same''), testArticle ''n2'' (Some ''Same'')] [''title''] =
     [testRow ''title'' ''sha1:Same'', testRow ''title'' ''sha1:Same'']"
  by code_simp

text \<open>The same pass, as an instance of the theorem.\<close>

theorem later_pass_stores_each_step_atomically_witness:
  "getArticlesFromXml testServices (testFeed [(''n1'', Some ''Same''), (''n2'', Some ''Same'')]) =
     Some (Inr [testArticle ''n1'' (Some ''Same''), testArticle ''n2'' (Some ''Same'')]) \<and>
   hasArticlesStoredForFeed seenDatabase ''feed'' \<and>
   (\<exists>db1 db2 db3 out.
      getArticlesToDeliverFromXml testServices seenDatabase
        (testFeed [(''n1'', Some ''Same''), (''n2'', Some ''Same'')]) ''feed'' [''title''] [] None =
        Some (db3, Inr out) \<and>
      (db1 = seenDatabase \<or>
       db1 = committedDatabase testServices seenDatabase ''feed''
               (filterForNewArticles seenDatabase ''feed''
                  [testArticle ''n1'' (Some ''Same''), testArticle ''n2'' (Some ''Same'')])
               (storedComparisonsOf seenDatabase ''feed'' ([''title''] @ []))) \<and>
      (db2 = db1 \<or>
       db2 = committedDatabase testServices db1 ''feed''
               (articlesPassedComparisonsOf testServices seenDatabase ''feed''
                  [testArticle ''n1'' (Some ''Same''), testArticle ''n2'' (Some ''Same'')]
                  [''title''] [])
               (storedComparisonsOf seenDatabase ''feed'' ([''title''] @ []))) \<and>
      (db3 = db2 \<or>
       db3 = committedDatabase testServices db2 ''feed''
               [testArticle ''n1'' (Some ''Same''), testArticle ''n2'' (Some ''Same'')]
               (unstoredComparisonsOf seenDatabase ''feed'' ([''title''] @ []))))"
proof -
  let ?articles = "[testArticle ''n1'' (Some ''Same''), testArticle ''n2'' (Some ''Same'')]"
  let ?xml = "testFeed [(''n1'', Some ''Same''), (''n2'', Some ''Same'')]"
  have parse: "getArticlesFromXml testServices ?xml = Some (Inr ?articles)" by code_simp
  have nonempty: "?articles \<noteq> []" by simp
  have prior: "hasArticlesStoredForFeed seenDatabase ''feed''" by code_simp
  from later_pass_stores_each_step_atomically [OF parse nonempty prior, of "[''title'']" "[]" None]
    parse prior
  show ?thesis by blast
qed

text \<open>
  C6 (as amended). For a later pass over articles with pairwise distinct id hashes,
  \<open>articlesToDeliver\<close> lists the delivered seen (passed) articles in the reverse of the
  parser's emission order, followed by the delivered new articles in the reverse of the
  emission order. It is the reverse of the emission order restricted to the delivered
  articles when the delivered articles are all new or all seen.
\<close>

theorem later_pass_delivery_order:
  assumes parse: "getArticlesFromXml env xml = Some (Inr articles)"
    and nonempty: "articles \<noteq> []"
    and prior: "hasArticlesStoredForFeed db fid"
    and distinct: "distinct (map flattened_idHash articles)"
    and run: "getArticlesToDeliverFromXml env db xml fid blockingComparisons passingComparisons
                dateChecks = Some (db', Inr out)"
  shows "articlesToDeliver out =
           rev (filter (\<lambda>a. a \<in> set (articlesToDeliver out) \<and>
                            a \<in> set (seenArticlesOf db fid articles)) articles) @
           rev (filter (\<lambda>a. a \<in> set (articlesToDeliver out) \<and>
                            a \<in> set (filterForNewArticles db fid articles)) articles) \<and>
         (set (articlesToDeliver out) \<subseteq> set (filterForNewArticles db fid articles) \<or>
          set (articlesToDeliver out) \<subseteq> set (seenArticlesOf db fid articles) \<longrightarrow>
          articlesToDeliver out =
            rev (filter (\<lambda>a. a \<in> set (articlesToDeliver out)) articles))"
proof -
  let ?new = "filterForNewArticles db fid articles"
  let ?seen = "seenArticlesOf db fid articles"
  let ?D = "articlesToDeliver out"
  from run have D: "?D = filterArticlesBasedOnDateChecks env
      (rev (articlesPastBlocksOf env db fid articles blockingComparisons passingComparisons @
            articlesPassedComparisonsOf env db fid articles blockingComparisons
              passingComparisons)) dateChecks"
    by (auto simp: getArticlesToDeliverFromXml_later_pass [OF parse nonempty prior])
  have order: "?D = rev (filter (\<lambda>a. a \<in> set ?D \<and> a \<in> set ?seen) articles) @
                    rev (filter (\<lambda>a. a \<in> set ?D \<and> a \<in> set ?new) articles)"
  proof (rule delivery_order_general)
    show "?new = filter (\<lambda>a. \<not> idHashStored db fid (flattened_idHash a)) articles"
      by (rule filterForNewArticles_distinct [OF distinct])
    show "?seen = filter (\<lambda>a. idHashStored db fid (flattened_idHash a)) articles"
      by (rule seenArticlesOf_distinct [OF distinct])
    show "articlesPastBlocksOf env db fid articles blockingComparisons passingComparisons =
          filter (\<lambda>article. \<not> (\<exists>field \<in> set blockingComparisons \<inter>
                     set (storedComparisonsOf db fid (blockingComparisons @ passingComparisons)).
                   fieldValueSeenBefore env db fid article field)) ?new"
      by (simp add: articlesPastBlocksOf_def checkBlockingComparisons_filter)
    show "articlesPassedComparisonsOf env db fid articles blockingComparisons passingComparisons =
          filter (\<lambda>a. checkPassingComparisons env db fid passingComparisons [a]
                     (storedComparisonsOf db fid (blockingComparisons @ passingComparisons)) = [a])
            ?seen"
      unfolding articlesPassedComparisonsOf_def by (rule checkPassingComparisons_filter)
    show "?D = filter (\<lambda>a. filterArticlesBasedOnDateChecks env [a] dateChecks = [a])
      (rev (articlesPastBlocksOf env db fid articles blockingComparisons passingComparisons @
            articlesPassedComparisonsOf env db fid articles blockingComparisons
              passingComparisons))"
      unfolding D by (rule filterArticlesBasedOnDateChecks_filter)
  qed simp
  have disjoint: "a \<notin> set ?seen" if "a \<in> set ?new" for a
    using that by (rule new_not_seen)
  have "?D = rev (filter (\<lambda>a. a \<in> set ?D) articles)"
    if "set ?D \<subseteq> set ?new \<or> set ?D \<subseteq> set ?seen"
  proof -
    from that disjoint have
      "(filter (\<lambda>a. a \<in> set ?D \<and> a \<in> set ?seen) articles = [] \<and>
        filter (\<lambda>a. a \<in> set ?D \<and> a \<in> set ?new) articles = filter (\<lambda>a. a \<in> set ?D) articles) \<or>
       (filter (\<lambda>a. a \<in> set ?D \<and> a \<in> set ?new) articles = [] \<and>
        filter (\<lambda>a. a \<in> set ?D \<and> a \<in> set ?seen) articles = filter (\<lambda>a. a \<in> set ?D) articles)"
      by (auto simp: filter_empty_conv intro!: filter_cong)
    with order show ?thesis by auto
  qed
  with order show ?thesis by blast
qed

text \<open>
  C6, counterexample to the reverse of the emission order across both groups:
  the seen article a (changed title) is emitted first, the new article n second; both
  groups are non-empty and the articles are delivered in emission order, not its reverse.
\<close>

theorem later_pass_delivery_order_counterexample:
  "getArticlesToDeliverFromXml testServices passDatabase
     (testFeed [(''a'', Some ''Changed''), (''n'', Some ''Fresh'')]) ''feed'' [] [''title''] None =
     Some (\<lparr>fieldRows = [testRow ''id'' ''sha1:a'', testRow ''title'' ''sha1:Old'',
                         testRow ''id'' ''sha1:n'', testRow ''title'' ''sha1:Fresh''],
            comparisonRows = [testComparison ''title'']\<rparr>,
           Inr \<lparr>articlesToDeliver = [testArticle ''a'' (Some ''Changed''),
                                     testArticle ''n'' (Some ''Fresh'')],
                allArticles = [testArticle ''a'' (Some ''Changed''),
                               testArticle ''n'' (Some ''Fresh'')]\<rparr>) \<and>
   articlesPastBlocksOf testServices passDatabase ''feed''
     [testArticle ''a'' (Some ''Changed''), testArticle ''n'' (Some ''Fresh'')] [] [''title''] =
     [testArticle ''n'' (Some ''Fresh'')] \<and>
   articlesPassedComparisonsOf testServices passDatabase ''feed''
     [testArticle ''a'' (Some ''Changed''), testArticle ''n'' (Some ''Fresh'')] [] [''title''] =
     [testArticle ''a'' (Some ''Changed'')] \<and>
   [testArticle ''a'' (Some ''Changed''), testArticle ''n'' (Some ''Fresh'')] \<noteq>
     rev [testArticle ''a'' (Some ''Changed''), testArticle ''n'' (Some ''Fresh'')]"
  by code_simp

text \<open>The same pass, as an instance of the theorem.\<close>

theorem later_pass_delivery_order_witness:
  "getArticlesFromXml testServices (testFeed [(''a'', Some ''Changed''), (''n'', Some ''Fresh'')]) =
     Some (Inr [testArticle ''a'' (Some ''Changed''), testArticle ''n'' (Some ''Fresh'')]) \<and>
   hasArticlesStoredForFeed passDatabase ''feed'' \<and>
   distinct (map flattened_idHash
     [testArticle ''a'' (Some ''Changed''), testArticle ''n'' (Some ''Fresh'')]) \<and>
   seenArticlesOf passDatabase ''feed''
     [testArticle ''a'' (Some ''Changed''), testArticle ''n'' (Some ''Fresh'')] =
     [testArticle ''a'' (Some ''Changed'')] \<and>
   filterForNewArticles passDatabase ''feed''
     [testArticle ''a'' (Some ''Changed''), testArticle ''n'' (Some ''Fresh'')] =
     [testArticle ''n'' (Some ''Fresh'')] \<and>
   (\<exists>db' out.
      getArticlesToDeliverFromXml testServices passDatabase
        (testFeed [(''a'', Some ''Changed''), (''n'', Some ''Fresh'')]) ''feed'' [] [''title''] None =
        Some (db', Inr out) \<and>
      articlesToDeliver out =
        rev [testArticle ''a'' (Some ''Changed'')] @ rev [testArticle ''n'' (Some ''Fresh'')])"
proof -
  let ?a = "testArticle ''a'' (Some ''Changed'')"
  let ?n = "testArticle ''n'' (Some ''Fresh'')"
  let ?xml = "testFeed [(''a'', Some ''Changed''), (''n'', Some ''Fresh'')]"
  let ?out = "\<lparr>articlesToDeliver = [?a, ?n], allArticles = [?a, ?n]\<rparr>"
  let ?db' = "\<lparr>fieldRows = [testRow ''id'' ''sha1:a'', testRow ''title'' ''sha1:Old'',
                         testRow ''id'' ''sha1:n'', testRow ''title'' ''sha1:Fresh''],
            comparisonRows = [testComparison ''title'']\<rparr>"
  have parse: "getArticlesFromXml testServices ?xml = Some (Inr [?a, ?n])" by code_simp
  have nonempty: "[?a, ?n] \<noteq> []" by simp
  have prior: "hasArticlesStoredForFeed passDatabase ''feed''" by code_simp
  have distinct: "distinct (map flattened_idHash [?a, ?n])" by code_simp
  have run: "getArticlesToDeliverFromXml testServices passDatabase ?xml ''feed'' [] [''title'']
      None = Some (?db', Inr ?out)" by code_simp
  have seen: "seenArticlesOf passDatabase ''feed'' [?a, ?n] = [?a]" by code_simp
  have new: "filterForNewArticles passDatabase ''feed'' [?a, ?n] = [?n]" by code_simp
  have diff: "?a \<noteq> ?n" by code_simp
  from later_pass_delivery_order [OF parse nonempty prior distinct run]
  have "articlesToDeliver ?out = rev [?a] @ rev [?n]"
    using diff by (simp add: seen new)
  with parse prior distinct seen new run show ?thesis by blast
qed



text \<open>
  C8. Whatever was read before it, a parser error whose message is "Not a feed" or starts
  with "Unexpected end" rejects with InvalidFeed, and any other parser error rejects with
  that error itself. When the parser ends having read no item, the result is the empty
  article list, with no error (the id type is not even asked for).
\<close>

theorem getArticlesFromXml_classifies_parse_outcomes:
  "(message = ''Not a feed'' \<or> prefix ''Unexpected end'' message \<longrightarrow>
      getArticlesFromXml env (map Readable reads @ ParserError message # rest) =
        Some (Inl (InvalidFeedException ''Invalid feed''))) \<and>
   (\<not> (message = ''Not a feed'' \<or> prefix ''Unexpected end'' message) \<longrightarrow>
      getArticlesFromXml env (map Readable reads @ ParserError message # rest) =
        Some (Inl (Error message))) \<and>
   (concat reads = [] \<longrightarrow>
      getArticlesFromXml env (map Readable reads @ ParserEnd # rest) = Some (Inr []))"
  by (simp add: getArticlesFromXml_def parseEvents_Readable onEnd_def)

text \<open>The three kinds of error message, and a feed without items.\<close>

theorem getArticlesFromXml_classifies_parse_outcomes_witness:
  "getArticlesFromXml testServices [Readable [testItem ''a'' None], ParserError ''Not a feed''] =
     Some (Inl (InvalidFeedException ''Invalid feed'')) \<and>
   getArticlesFromXml testServices [ParserError ''Unexpected end of input'', ParserEnd] =
     Some (Inl (InvalidFeedException ''Invalid feed'')) \<and>
   getArticlesFromXml testServices [ParserError ''Not a feed at all''] =
     Some (Inl (Error ''Not a feed at all'')) \<and>
   getArticlesFromXml testServices [Readable [], ParserEnd] = Some (Inr [])"
proof -
  have p: "prefix ''Unexpected end'' ''Unexpected end of input''" by code_simp
  have q: "\<not> prefix ''Unexpected end'' ''Not a feed at all''" by code_simp
  from getArticlesFromXml_classifies_parse_outcomes [of "''Not a feed''" testServices
      "[[testItem ''a'' None]]" "[]"]
  have 1: "getArticlesFromXml testServices [Readable [testItem ''a'' None], ParserError ''Not a feed''] =
     Some (Inl (InvalidFeedException ''Invalid feed''))" by simp
  from getArticlesFromXml_classifies_parse_outcomes [of "''Unexpected end of input''" testServices
      "[]" "[ParserEnd]"] p
  have 2: "getArticlesFromXml testServices [ParserError ''Unexpected end of input'', ParserEnd] =
     Some (Inl (InvalidFeedException ''Invalid feed''))" by simp
  from getArticlesFromXml_classifies_parse_outcomes [of "''Not a feed at all''" testServices
      "[]" "[]"] q
  have 3: "getArticlesFromXml testServices [ParserError ''Not a feed at all''] =
     Some (Inl (Error ''Not a feed at all''))" by simp
  from getArticlesFromXml_classifies_parse_outcomes [of "''x''" testServices "[[]]" "[]"]
  have 4: "getArticlesFromXml testServices [Readable [], ParserEnd] = Some (Inr [])" by simp
  from 1 2 3 4 show ?thesis by simp
qed

end
